theory Spec2Isabelle
  imports Main "HOL-Library.Word"
begin

unbundle bit_operations_syntax

section \<open>JavaScript values, strings and exceptions\<close>

text \<open>
  The cache manager (cacheManager.js) and the administration script (scripts/cache.js)
  are modelled as pure functions. A function of the source that can raise returns
  \<open>exn + 'a\<close>, with \<open>Inl\<close> the value thrown.

  A URL is a JavaScript string: a sequence of UTF-16 code units. All other text (header
  names and values, bodies, messages, cache keys) is only compared, concatenated or tested
  for emptiness by the code and is kept as \<open>string\<close>.
\<close>

type_synonym js_string = "16 word list"

datatype js_value =
    JUndefined
  | JNull
  | JBoolean bool
  | JNumber int
  | JString js_string

text \<open>What a \<open>throw\<close> can carry here: an \<open>Error\<close> or \<open>TypeError\<close> object with its
  message, or the value \<open>null\<close> (\<open>throw lastError\<close> when no attempt ran).\<close>

datatype exn =
    Error string
  | TypeError string
  | ThrownNull

text \<open>Reading \<open>error.message\<close>; on \<open>null\<close> the property access itself raises.\<close>

fun message :: "exn \<Rightarrow> exn + string" where
  "message (Error m) = Inr m"
| "message (TypeError m) = Inr m"
| "message ThrownNull = Inl (TypeError ''Cannot read properties of null (reading 'message')'')"

text \<open>Sequencing inside a \<open>try\<close> block: the first \<open>throw\<close> ends it.\<close>

definition and_then :: "exn + 'a \<Rightarrow> ('a \<Rightarrow> exn + 'b) \<Rightarrow> exn + 'b" where
  "and_then m f = (case m of Inl e \<Rightarrow> Inl e | Inr x \<Rightarrow> f x)"

definition ascii :: "string \<Rightarrow> js_string" where
  "ascii s = map (\<lambda>c. of_nat (of_char c)) s"

subsection \<open>Rendering numbers\<close>

definition digit_char :: "nat \<Rightarrow> char" where
  "digit_char d = ''0123456789abcdefghijklmnopqrstuvwxyz'' ! d"

text \<open>\<open>Number.prototype.toString(radix)\<close> on a non-negative integer; digits above 9 are
  the lowercase letters.\<close>

fun toString_radix :: "nat \<Rightarrow> nat \<Rightarrow> string" where
  "toString_radix r n =
     (if r < 2 \<or> n < r then [digit_char n]
      else toString_radix r (n div r) @ [digit_char (n mod r)])"

declare toString_radix.simps [simp del]

definition toString_int :: "int \<Rightarrow> string" where
  "toString_int k =
     (if k < 0 then CHR ''-'' # toString_radix 10 (nat (- k)) else toString_radix 10 (nat k))"

subsection \<open>32-bit integer operators\<close>

text \<open>JavaScript numbers are doubles; the bitwise operators first convert their operands
  with \<open>ToInt32\<close>. The values that occur in the hash loop are integers below \<open>2^53\<close>
  in magnitude, which doubles represent exactly, so they are modelled as \<open>int\<close>.\<close>

definition ToInt32 :: "int \<Rightarrow> int" where
  "ToInt32 x = (x + 2 ^ 31) mod 2 ^ 32 - 2 ^ 31"

definition js_shl :: "int \<Rightarrow> nat \<Rightarrow> int" where
  "js_shl x n = ToInt32 (ToInt32 x * 2 ^ (n mod 32))"

definition js_and :: "int \<Rightarrow> int \<Rightarrow> int" where
  "js_and x y = ToInt32 x AND ToInt32 y"

subsection \<open>TextEncoder\<close>

text \<open>\<open>new TextEncoder().encode(input)\<close> of the platform: the argument is converted to a
  scalar-value string (an omitted or \<open>undefined\<close> argument is the empty string, other
  primitives are stringified, an unpaired surrogate becomes U+FFFD) and encoded as UTF-8
  into a \<open>Uint8Array\<close>.\<close>

fun ToString :: "js_value \<Rightarrow> js_string" where
  "ToString JUndefined = ascii ''undefined''"
| "ToString JNull = ascii ''null''"
| "ToString (JBoolean b) = ascii (if b then ''true'' else ''false'')"
| "ToString (JNumber k) = ascii (toString_int k)"
| "ToString (JString s) = s"

definition is_high_surrogate :: "nat \<Rightarrow> bool" where
  "is_high_surrogate u \<longleftrightarrow> 0xD800 \<le> u \<and> u < 0xDC00"

definition is_low_surrogate :: "nat \<Rightarrow> bool" where
  "is_low_surrogate u \<longleftrightarrow> 0xDC00 \<le> u \<and> u < 0xE000"

fun scalar_values :: "nat list \<Rightarrow> nat list" where
  "scalar_values [] = []"
| "scalar_values [u] = (if is_high_surrogate u \<or> is_low_surrogate u then [0xFFFD] else [u])"
| "scalar_values (u # l # us) =
     (if is_high_surrogate u then
        (if is_low_surrogate l
         then (0x10000 + (u - 0xD800) * 0x400 + (l - 0xDC00)) # scalar_values us
         else 0xFFFD # scalar_values (l # us))
      else if is_low_surrogate u then 0xFFFD # scalar_values (l # us)
      else u # scalar_values (l # us))"

definition utf8_encode_scalar :: "nat \<Rightarrow> 8 word list" where
  "utf8_encode_scalar c =
     (if c < 0x80 then [of_nat c]
      else if c < 0x800 then [of_nat (0xC0 + c div 64), of_nat (0x80 + c mod 64)]
      else if c < 0x10000 then
        [of_nat (0xE0 + c div 4096), of_nat (0x80 + (c div 64) mod 64), of_nat (0x80 + c mod 64)]
      else
        [of_nat (0xF0 + c div 262144), of_nat (0x80 + (c div 4096) mod 64),
         of_nat (0x80 + (c div 64) mod 64), of_nat (0x80 + c mod 64)])"

definition TextEncoder_encode :: "js_value \<Rightarrow> 8 word list" where
  "TextEncoder_encode input =
     (let s = (case input of JUndefined \<Rightarrow> [] | _ \<Rightarrow> ToString input)
      in concat (map utf8_encode_scalar (scalar_values (map unat s))))"

section \<open>Cache keys\<close>

subsection \<open>cacheManager.js: generateCacheKey\<close>

text \<open>
  The loop body reads \<open>data.charCodeAt(i)\<close>, where \<open>data\<close> is the \<open>Uint8Array\<close> returned
  by the encoder. \<open>charCodeAt\<close> is a method of strings; a \<open>Uint8Array\<close> has no such
  property, so the lookup yields \<open>undefined\<close> and calling it raises a \<open>TypeError\<close>.
\<close>

definition Uint8Array_charCodeAt :: "8 word list \<Rightarrow> nat \<Rightarrow> exn + int" where
  "Uint8Array_charCodeAt data i = Inl (TypeError ''data.charCodeAt is not a function'')"

function generateCacheKey_loop :: "8 word list \<Rightarrow> nat \<Rightarrow> int \<Rightarrow> exn + int" where
  "generateCacheKey_loop data i hash =
     (if i < length data then
        (case Uint8Array_charCodeAt data i of
           Inl e \<Rightarrow> Inl e
         | Inr char \<Rightarrow>
             (let hash = (js_shl hash 5 - hash) + char;
                  hash = js_and hash hash
              in generateCacheKey_loop data (i + 1) hash))
      else Inr hash)"
  by pat_completeness auto
termination
  by (relation "measure (\<lambda>(data, i, hash). length data - i)") auto

declare generateCacheKey_loop.simps [simp del]

definition generateCacheKey :: "js_value \<Rightarrow> exn + string" where
  "generateCacheKey url =
     (case generateCacheKey_loop (TextEncoder_encode url) 0 0 of
        Inl e \<Rightarrow> Inl e
      | Inr hash \<Rightarrow> Inr (toString_radix 16 (nat \<bar>hash\<bar>)))"

subsection \<open>scripts/cache.js: generateCacheKey\<close>

text \<open>The script's copy ("same logic as cacheManager.js") guards the argument and reads
  the bytes by index.\<close>

fun falsy :: "js_value \<Rightarrow> bool" where
  "falsy JUndefined = True"
| "falsy JNull = True"
| "falsy (JBoolean b) = (\<not> b)"
| "falsy (JNumber k) = (k = 0)"
| "falsy (JString s) = (s = [])"

fun is_string :: "js_value \<Rightarrow> bool" where
  "is_string (JString s) = True"
| "is_string _ = False"

function script_generateCacheKey_loop :: "8 word list \<Rightarrow> nat \<Rightarrow> int \<Rightarrow> int" where
  "script_generateCacheKey_loop data i hash =
     (if i < length data then
        (let hash = (js_shl hash 5 - hash) + uint (data ! i);
             hash = js_and hash hash
         in script_generateCacheKey_loop data (i + 1) hash)
      else hash)"
  by pat_completeness auto
termination
  by (relation "measure (\<lambda>(data, i, hash). length data - i)") auto

declare script_generateCacheKey_loop.simps [simp del]

definition script_generateCacheKey :: "js_value \<Rightarrow> string" where
  "script_generateCacheKey url =
     (if falsy url \<or> \<not> is_string url then ''invalid-url''
      else toString_radix 16 (nat \<bar>script_generateCacheKey_loop (TextEncoder_encode url) 0 0\<bar>))"

section \<open>The retrying fetcher\<close>

subsection \<open>Headers\<close>

text \<open>The platform's \<open>Headers\<close> class, after the Fetch standard. A header name is a
  non-empty token. A value is normalised by stripping leading and trailing HTTP
  whitespace (tab, line feed, carriage return, space) and must then hold no NUL, line feed
  or carriage return. \<open>has\<close>, \<open>set\<close> and \<open>append\<close> raise a \<open>TypeError\<close> on a name that
  is not a header name, \<open>set\<close> and \<open>append\<close> also on a value that is not a header value;
  the text of its message is the platform's. Names are case-insensitive and kept in lower
  case; \<open>append\<close> on a name already present joins the values with a comma and a space,
  \<open>set\<close> replaces the value. A \<open>Headers\<close> object is a list of (lower-case name, value)
  with distinct names. Names and values are byte strings, which is what \<open>string\<close> holds.\<close>

type_synonym headers = "(string \<times> string) list"

definition lower_char :: "char \<Rightarrow> char" where
  "lower_char c =
     (case map_of (zip ''ABCDEFGHIJKLMNOPQRSTUVWXYZ'' ''abcdefghijklmnopqrstuvwxyz'') c of
        Some l \<Rightarrow> l
      | None \<Rightarrow> c)"

definition toLowerCase :: "string \<Rightarrow> string" where
  "toLowerCase s = map lower_char s"

definition is_tchar :: "char \<Rightarrow> bool" where
  "is_tchar c \<longleftrightarrow>
     (let n = (of_char c :: nat)
      in (48 \<le> n \<and> n \<le> 57) \<or> (65 \<le> n \<and> n \<le> 90) \<or> (97 \<le> n \<and> n \<le> 122)
         \<or> n \<in> {33, 35, 36, 37, 38, 39, 42, 43, 45, 46, 94, 95, 96, 124, 126})"

definition is_header_name :: "string \<Rightarrow> bool" where
  "is_header_name name \<longleftrightarrow> name \<noteq> [] \<and> list_all is_tchar name"

definition is_http_whitespace :: "char \<Rightarrow> bool" where
  "is_http_whitespace c \<longleftrightarrow> (of_char c :: nat) \<in> {9, 10, 13, 32}"

definition normalize_value :: "string \<Rightarrow> string" where
  "normalize_value v =
     rev (dropWhile is_http_whitespace (rev (dropWhile is_http_whitespace v)))"

definition is_header_value :: "string \<Rightarrow> bool" where
  "is_header_value v \<longleftrightarrow> list_all (\<lambda>c. (of_char c :: nat) \<notin> {0, 10, 13}) v"

definition invalid_header :: string where
  "invalid_header = ''Invalid header name or value''"

text \<open>The entry that \<open>set\<close> or \<open>append\<close> stores for a name and a value, or the
  \<open>TypeError\<close> they raise.\<close>

definition header_entry :: "string \<Rightarrow> string \<Rightarrow> exn + (string \<times> string)" where
  "header_entry name v =
     (let v' = normalize_value v
      in if is_header_name name \<and> is_header_value v' then Inr (toLowerCase name, v')
         else Inl (TypeError invalid_header))"

fun assoc_put :: "string \<Rightarrow> string \<Rightarrow> headers \<Rightarrow> headers" where
  "assoc_put k v [] = [(k, v)]"
| "assoc_put k v ((k', v') # hs) = (if k' = k then (k, v) # hs else (k', v') # assoc_put k v hs)"

definition Headers_has :: "headers \<Rightarrow> string \<Rightarrow> exn + bool" where
  "Headers_has hs name =
     (if is_header_name name then Inr (map_of hs (toLowerCase name) \<noteq> None)
      else Inl (TypeError invalid_header))"

definition Headers_set :: "headers \<Rightarrow> string \<Rightarrow> string \<Rightarrow> exn + headers" where
  "Headers_set hs name v =
     and_then (header_entry name v) (\<lambda>(n, v'). Inr (assoc_put n v' hs))"

definition Headers_append :: "headers \<Rightarrow> string \<Rightarrow> string \<Rightarrow> exn + headers" where
  "Headers_append hs name v =
     and_then (header_entry name v) (\<lambda>(n, v').
       case map_of hs n of
         None \<Rightarrow> Inr (hs @ [(n, v')])
       | Some old \<Rightarrow> Inr (assoc_put n (old @ '', '' @ v') hs))"

text \<open>Filling a \<open>Headers\<close> object from the entries of a plain object, in order;
  \<open>new Headers(init)\<close> fills an empty one.\<close>

fun Headers_fill :: "headers \<Rightarrow> (string \<times> string) list \<Rightarrow> exn + headers" where
  "Headers_fill hs [] = Inr hs"
| "Headers_fill hs ((name, v) # init) =
     and_then (Headers_append hs name v) (\<lambda>hs'. Headers_fill hs' init)"

definition Headers_new :: "(string \<times> string) list \<Rightarrow> exn + headers" where
  "Headers_new init = Headers_fill [] init"

subsection \<open>The identity pool\<close>

record ua_config =
  ua :: string
  ua_headers :: "(string \<times> string) list"

definition USER_AGENTS :: "ua_config list" where
  "USER_AGENTS =
     [\<lparr>ua = ''FlClash/v0.8.74 clash-verge Platform/windows'',
       ua_headers =
         [(''accept-encoding'', ''gzip, br''),
          (''connection'', ''Keep-Alive''),
          (''user-agent'', ''FlClash/v0.8.74 clash-verge Platform/windows''),
          (''x-forwarded-proto'', ''https''),
          (''x-real-ip'', ''47.91.20.160'')]\<rparr>,
      \<lparr>ua = ''curl/7.88.1'', ua_headers = [(''user-agent'', ''curl/7.88.1'')]\<rparr>,
      \<lparr>ua = ''ClashforWindows/0.20.31'',
       ua_headers = [(''user-agent'', ''ClashforWindows/0.20.31'')]\<rparr>,
      \<lparr>ua = ''clash-verge/v1.7.4'', ua_headers = [(''user-agent'', ''clash-verge/v1.7.4'')]\<rparr>,
      \<lparr>ua = ''Surge/5.2.0'', ua_headers = [(''user-agent'', ''Surge/5.2.0'')]\<rparr>,
      \<lparr>ua = ''Quantumult%20X/1.2.3'', ua_headers = [(''user-agent'', ''Quantumult%20X/1.2.3'')]\<rparr>,
      \<lparr>ua = ''ShadowsocksX-NG/1.8.2'',
       ua_headers = [(''user-agent'', ''ShadowsocksX-NG/1.8.2'')]\<rparr>,
      \<lparr>ua = ''Mozilla/5.0 (Windows NT 10.0; Win64; x64) AppleWebKit/537.36 Chrome/120.0.0.0 Safari/537.36'',
       ua_headers =
         [(''user-agent'', ''Mozilla/5.0 (Windows NT 10.0; Win64; x64) AppleWebKit/537.36 Chrome/120.0.0.0 Safari/537.36''),
          (''accept'', ''text/html,application/xhtml+xml,application/xml;q=0.9,*/*;q=0.8''),
          (''accept-language'', ''en-US,en;q=0.5'')]\<rparr>,
      \<lparr>ua = ''Mozilla/5.0 (Macintosh; Intel Mac OS X 10_15_7) AppleWebKit/605.1.15 Version/17.2 Safari/605.1.15'',
       ua_headers =
         [(''user-agent'', ''Mozilla/5.0 (Macintosh; Intel Mac OS X 10_15_7) AppleWebKit/605.1.15 Version/17.2 Safari/605.1.15''),
          (''accept'', ''text/html,application/xhtml+xml,application/xml;q=0.9,*/*;q=0.8'')]\<rparr>]"

subsection \<open>Requests and responses\<close>

text \<open>The \<open>options\<close> object, with the two properties the code reads; \<open>None\<close> is an
  absent property. \<open>maxRetries\<close> is modelled for integer values.\<close>

record options =
  opt_headers :: "(string \<times> string) list option"
  opt_maxRetries :: "int option"

record request =
  req_url :: js_string
  req_method :: string
  req_headers :: headers

text \<open>What one call of the platform's \<open>fetch\<close> followed by \<open>response.text()\<close> yields: a
  response with status, status text and body, or a rejection (a \<open>TypeError\<close> with a
  message). The network is a parameter \<open>fetch\<close>: the outcome of the \<open>n\<close>-th call
  (counted from 0) for the request passed.\<close>

datatype fetch_outcome =
    Response nat string string
  | NetworkFailure string

type_synonym network = "nat \<Rightarrow> request \<Rightarrow> fetch_outcome"

definition response_ok :: "nat \<Rightarrow> bool" where
  "response_ok status \<longleftrightarrow> 200 \<le> status \<and> status \<le> 299"

subsection \<open>fetchWithRetry\<close>

text \<open>Lines 97 to 101: the headers of the identity other than \<open>user-agent\<close> are set one
  by one.\<close>

fun merge_identity_headers :: "(string \<times> string) list \<Rightarrow> headers \<Rightarrow> exn + headers" where
  "merge_identity_headers [] headers = Inr headers"
| "merge_identity_headers ((key, v) # entries) headers =
     (if key \<noteq> ''user-agent''
      then and_then (Headers_set headers key v) (merge_identity_headers entries)
      else merge_identity_headers entries headers)"

text \<open>Lines 85 to 102: the \<open>Headers\<close> object built for an attempt, or the \<open>TypeError\<close>
  that \<open>new Headers(options.headers || {})\<close> raises.\<close>

definition attempt_headers :: "options \<Rightarrow> int \<Rightarrow> exn + headers" where
  "attempt_headers options attempt =
     (let uaIndex = nat (attempt - 1) mod length USER_AGENTS;
          uaConfig = USER_AGENTS ! uaIndex
      in and_then (Headers_new (case opt_headers options of None \<Rightarrow> [] | Some h \<Rightarrow> h))
           (\<lambda>headers.
         and_then (Headers_has headers ''user-agent'')
           (\<lambda>present.
         and_then (if \<not> present then Headers_set headers ''user-agent'' (ua uaConfig)
                   else Inr headers)
           (\<lambda>headers.
         if attempt = 1 then merge_identity_headers (ua_headers uaConfig) headers
         else Inr headers))))"

text \<open>Lines 85 to 108, up to the call of \<open>fetch\<close>: the request passed to it. The init
  object is \<open>{ method: 'GET', headers, ...options }\<close>. The spread comes last, so a
  \<open>headers\<close> property of \<open>options\<close> replaces the object just built; the platform then
  fills the request's headers from that plain object, as \<open>new Headers\<close> does.\<close>

definition attempt_request :: "js_string \<Rightarrow> options \<Rightarrow> int \<Rightarrow> exn + request" where
  "attempt_request url options attempt =
     and_then (attempt_headers options attempt)
       (\<lambda>headers.
     and_then (case opt_headers options of None \<Rightarrow> Inr headers | Some h \<Rightarrow> Headers_new h)
       (\<lambda>init_headers.
     Inr \<lparr>req_url = url, req_method = ''GET'', req_headers = init_headers\<rparr>))"

text \<open>Lines 104 to 114, the rest of the \<open>try\<close> block: what an attempt returns, or
  what it throws into the \<open>catch\<close>.\<close>

fun attempt_result :: "fetch_outcome \<Rightarrow> exn + string" where
  "attempt_result (Response status statusText body) =
     (if response_ok status then Inr body
      else Inl (Error (''HTTP '' @ toString_int (int status) @ '': '' @ statusText)))"
| "attempt_result (NetworkFailure m) = Inl (TypeError m)"

text \<open>The loop of \<open>fetchWithRetry\<close>. The result carries the list of requests passed to
  \<open>fetch\<close>, in order. An iteration whose headers cannot be built raises before \<open>fetch\<close>
  is called: it sets \<open>lastError\<close> and passes no request.\<close>

function fetchWithRetry_loop ::
  "network \<Rightarrow> js_string \<Rightarrow> options \<Rightarrow> int \<Rightarrow> int \<Rightarrow> exn \<Rightarrow> request list
     \<Rightarrow> (exn + string) \<times> request list" where
  "fetchWithRetry_loop fetch url options maxRetries attempt lastError sent =
     (if attempt \<le> maxRetries then
        (case attempt_request url options attempt of
           Inl error \<Rightarrow>
             fetchWithRetry_loop fetch url options maxRetries (attempt + 1) error sent
         | Inr req \<Rightarrow>
             (case attempt_result (fetch (length sent) req) of
                Inr body \<Rightarrow> (Inr body, sent @ [req])
              | Inl error \<Rightarrow>
                  fetchWithRetry_loop fetch url options maxRetries (attempt + 1) error
                    (sent @ [req])))
      else (Inl lastError, sent))"
  by pat_completeness auto
termination
  by (relation "measure (\<lambda>(fetch, url, options, maxRetries, attempt, lastError, sent).
        nat (maxRetries + 1 - attempt))") auto

declare fetchWithRetry_loop.simps [simp del]

definition fetchWithRetry ::
  "network \<Rightarrow> js_string \<Rightarrow> options \<Rightarrow> int \<Rightarrow> (exn + string) \<times> request list" where
  "fetchWithRetry fetch url options maxRetries =
     fetchWithRetry_loop fetch url options maxRetries 1 ThrownNull []"

section \<open>The D1 cache\<close>

text \<open>
  The table \<open>subscription_cache\<close> of the migration: \<open>cache_key\<close> is the primary key, so a
  table is a list of (key, row) with distinct keys. Counters and timestamps are SQLite
  integers, modelled as \<open>int\<close>. A database in which the table has not been created makes
  every statement on it reject; that is \<open>subscription_cache = None\<close>. The module variable
  \<open>dbBinding\<close> is \<open>None\<close> while no binding has been set.
\<close>

record row =
  row_url :: js_string
  row_content :: string
  created_at :: int
  updated_at :: int
  success_count :: int
  fail_count :: int

type_synonym table = "(string \<times> row) list"

record d1 =
  subscription_cache :: "table option"

fun table_put :: "string \<Rightarrow> row \<Rightarrow> table \<Rightarrow> table" where
  "table_put k r [] = [(k, r)]"
| "table_put k r ((k', r') # t) = (if k' = k then (k, r) # t else (k', r') # table_put k r t)"

text \<open>The object returned by \<open>getCachedContent\<close> for a hit.\<close>

record cached =
  cached_content :: string
  successCount :: int
  failCount :: int
  createdAt :: int

text \<open>D1 hands the integer columns of a row to JavaScript as numbers, that is as
  doubles: an integer beyond \<open>2^53\<close> in magnitude arrives rounded to the nearest double,
  ties to the even mantissa.\<close>

fun bit_length :: "nat \<Rightarrow> nat" where
  "bit_length n = (if n = 0 then 0 else Suc (bit_length (n div 2)))"

declare bit_length.simps [simp del]

definition js_number :: "int \<Rightarrow> int" where
  "js_number x =
     (let m = nat \<bar>x\<bar>
      in if m \<le> 2 ^ 53 then x
         else (let e = bit_length m - 53;
                   q = m div 2 ^ e;
                   r = m mod 2 ^ e;
                   q' = (if 2 * r > 2 ^ e \<or> (2 * r = 2 ^ e \<and> odd q) then q + 1 else q)
               in sgn x * int (q' * 2 ^ e)))"

text \<open>\<open>new Date(t).toISOString()\<close> raises a \<open>RangeError\<close> outside the range of time
  values.\<close>

definition valid_time_value :: "int \<Rightarrow> bool" where
  "valid_time_value t \<longleftrightarrow> \<bar>t\<bar> \<le> 8640000000000000"

definition getCachedContent :: "string \<Rightarrow> d1 option \<Rightarrow> cached option" where
  "getCachedContent cacheKey dbBinding =
     (case dbBinding of
        None \<Rightarrow> None
      | Some db \<Rightarrow>
          (case subscription_cache db of
             None \<Rightarrow> None
           | Some t \<Rightarrow>
               (case map_of t cacheKey of
                  Some result \<Rightarrow>
                    if valid_time_value (js_number (created_at result))
                    then Some \<lparr>cached_content = row_content result,
                               successCount = js_number (success_count result),
                               failCount = js_number (fail_count result),
                               createdAt = js_number (created_at result)\<rparr>
                    else None
                | None \<Rightarrow> None)))"

text \<open>\<open>saveToCache\<close>: the statement is \<open>INSERT OR REPLACE\<close> with both timestamps bound to
  \<open>now\<close> and the counters read back from the row being replaced. \<open>now\<close> is the value of
  \<open>Date.now()\<close>. The result is the value returned and the binding afterwards.\<close>

definition saveToCache ::
  "int \<Rightarrow> string \<Rightarrow> js_string \<Rightarrow> string \<Rightarrow> d1 option \<Rightarrow> bool \<times> d1 option" where
  "saveToCache now cacheKey url content dbBinding =
     (case dbBinding of
        None \<Rightarrow> (False, dbBinding)
      | Some db \<Rightarrow>
          (case subscription_cache db of
             None \<Rightarrow> (False, dbBinding)
           | Some t \<Rightarrow>
               (let new_row =
                      \<lparr>row_url = url, row_content = content, created_at = now, updated_at = now,
                       success_count =
                         (case map_of t cacheKey of Some r \<Rightarrow> success_count r + 1 | None \<Rightarrow> 1),
                       fail_count =
                         (case map_of t cacheKey of Some r \<Rightarrow> fail_count r | None \<Rightarrow> 0)\<rparr>
                in (True, Some (db\<lparr>subscription_cache := Some (table_put cacheKey new_row t)\<rparr>)))))"

text \<open>\<open>recordFailAttempt\<close>: an \<open>UPDATE ... WHERE cache_key = ?\<close>.\<close>

definition recordFailAttempt :: "int \<Rightarrow> string \<Rightarrow> d1 option \<Rightarrow> bool \<times> d1 option" where
  "recordFailAttempt now cacheKey dbBinding =
     (case dbBinding of
        None \<Rightarrow> (False, dbBinding)
      | Some db \<Rightarrow>
          (case subscription_cache db of
             None \<Rightarrow> (False, dbBinding)
           | Some t \<Rightarrow>
               (True,
                Some (db\<lparr>subscription_cache :=
                  Some (map (\<lambda>(k, r). if k = cacheKey
                                        then (k, r\<lparr>fail_count := fail_count r + 1, updated_at := now\<rparr>)
                                        else (k, r)) t)\<rparr>))))"

text \<open>\<open>getCacheStats\<close> returns an object, given by its properties in order. Two
  \<open>COUNT(*)\<close> queries; the message of the rejection on a missing table is the
  platform's.\<close>

definition no_such_table :: string where
  "no_such_table = ''D1_ERROR: no such table: subscription_cache: SQLITE_ERROR''"

definition getCacheStats :: "d1 option \<Rightarrow> (string \<times> js_value) list" where
  "getCacheStats dbBinding =
     (case dbBinding of
        None \<Rightarrow> [(''error'', JString (ascii ''D1 database not initialized''))]
      | Some db \<Rightarrow>
          (case subscription_cache db of
             None \<Rightarrow> [(''error'', JString (ascii no_such_table))]
           | Some t \<Rightarrow>
               [(''totalCached'', JNumber (int (length t))),
                (''withSuccess'', JNumber (int (length (filter (\<lambda>(k, r). success_count r > 0) t))))]))"

text \<open>scripts/cache.js, \<open>showStats\<close>: the row selected by its query
  (\<open>SUM\<close> over no rows is \<open>NULL\<close>; \<open>length\<close> of a text counts characters).\<close>

definition sql_sum :: "int list \<Rightarrow> js_value" where
  "sql_sum xs = (if xs = [] then JNull else JNumber (sum_list xs))"

definition showStats_query :: "table \<Rightarrow> (string \<times> js_value) list" where
  "showStats_query t =
     [(''total'', JNumber (int (length t))),
      (''total_success'', sql_sum (map (\<lambda>(k, r). success_count r) t)),
      (''total_fail'', sql_sum (map (\<lambda>(k, r). fail_count r) t)),
      (''total_size'', sql_sum (map (\<lambda>(k, r). int (length (row_content r))) t))]"

section \<open>fetchWithCache\<close>

record fetch_result =
  content :: "string option"
  fromCache :: bool
  success :: bool
  warning :: "string option"
  error :: "string option"

text \<open>\<open>options.maxRetries || 3\<close>: an absent property and the number 0 are falsy.\<close>

definition maxRetries_or_default :: "options \<Rightarrow> int" where
  "maxRetries_or_default options =
     (case opt_maxRetries options of None \<Rightarrow> 3 | Some n \<Rightarrow> if n = 0 then 3 else n)"

text \<open>The result is what is returned or raised, the requests passed to \<open>fetch\<close>, and
  the binding afterwards. The key is derived before the \<open>try\<close>; in the handler,
  \<open>error.message\<close> is read before the cache is consulted.\<close>

definition fetchWithCache ::
  "network \<Rightarrow> int \<Rightarrow> js_string \<Rightarrow> options \<Rightarrow> d1 option
     \<Rightarrow> (exn + fetch_result) \<times> request list \<times> d1 option" where
  "fetchWithCache fetch now url options dbBinding =
     (case generateCacheKey (JString url) of
        Inl e \<Rightarrow> (Inl e, [], dbBinding)
      | Inr cacheKey \<Rightarrow>
          (let maxRetries = maxRetries_or_default options
           in case fetchWithRetry fetch url options maxRetries of
                (Inr body, sent) \<Rightarrow>
                  (let (saved, dbBinding') = saveToCache now cacheKey url body dbBinding
                   in (Inr \<lparr>content = Some body, fromCache = False, success = True,
                             warning = None, error = None\<rparr>, sent, dbBinding'))
              | (Inl err, sent) \<Rightarrow>
                  (case message err of
                     Inl e \<Rightarrow> (Inl e, sent, dbBinding)
                   | Inr msg \<Rightarrow>
                       (case getCachedContent cacheKey dbBinding of
                          Some c \<Rightarrow>
                            if cached_content c \<noteq> []
                            then (Inr \<lparr>content = Some (cached_content c), fromCache = True,
                                       success = True,
                                       warning = Some ''Remote fetch failed, using cached content'',
                                       error = None\<rparr>, sent, dbBinding)
                            else (Inr \<lparr>content = None, fromCache = False, success = False,
                                       warning = None, error = Some msg\<rparr>, sent, dbBinding)
                        | None \<Rightarrow>
                            (Inr \<lparr>content = None, fromCache = False, success = False,
                                  warning = None, error = Some msg\<rparr>, sent, dbBinding)))))"

section \<open>Observations and specified behaviour\<close>

text \<open>The row a \<open>SELECT ... WHERE cache_key = ?\<close> finds in the bound database, if there
  is one.\<close>

definition stored_row :: "string \<Rightarrow> d1 option \<Rightarrow> row option" where
  "stored_row cacheKey dbBinding =
     (case dbBinding of
        None \<Rightarrow> None
      | Some db \<Rightarrow> (case subscription_cache db of None \<Rightarrow> None | Some t \<Rightarrow> map_of t cacheKey))"

text \<open>The statistics object as the specification words it, for comparison with
  \<open>getCacheStats\<close>: entry count, sum of the success counters, sum of the failure counters
  and sum of the content sizes.\<close>

definition spec_stats :: "table \<Rightarrow> (string \<times> js_value) list" where
  "spec_stats t =
     [(''totalEntries'', JNumber (int (length t))),
      (''totalSuccess'', JNumber (sum_list (map (\<lambda>(k, r). success_count r) t))),
      (''totalFail'', JNumber (sum_list (map (\<lambda>(k, r). fail_count r) t))),
      (''totalBytes'', JNumber (sum_list (map (\<lambda>(k, r). int (length (row_content r))) t)))]"

subsection \<open>The key derivation as specified\<close>

text \<open>The specified algorithm, for comparison with the code: a 32-bit accumulator folded
  over the bytes with \<open>acc = (acc << 5) - acc + byte\<close>, then the absolute value of its
  signed reading in lower-case hexadecimal.\<close>

definition spec_step :: "32 word \<Rightarrow> 8 word \<Rightarrow> 32 word" where
  "spec_step acc b = push_bit 5 acc - acc + ucast b"

definition spec_accumulate :: "8 word list \<Rightarrow> 32 word" where
  "spec_accumulate bytes = foldl spec_step 0 bytes"

definition spec_deriveKey :: "8 word list \<Rightarrow> string" where
  "spec_deriveKey bytes = toString_radix 16 (nat \<bar>sint (spec_accumulate bytes)\<bar>)"

section \<open>Properties of the key derivation\<close>

text \<open>\<open>ToInt32\<close> is the signed reading of the low 32 bits, so one step of the script's
  loop is one step of the specified accumulator.\<close>

lemma ToInt32_signed: "ToInt32 x = signed_take_bit 31 x"
  by (simp add: ToInt32_def signed_take_bit_eq_take_bit_shift take_bit_eq_mod)

lemma ToInt32_sint: "ToInt32 (sint (w :: 32 word)) = sint w"
  by (simp add: ToInt32_signed sint_uint)

lemma js_and_self: "js_and x x = ToInt32 x"
  by (simp add: js_and_def)

lemma ToInt32_cong: "ToInt32 (ToInt32 x - c + d) = ToInt32 (x - c + d)"
proof -
  have a: "take_bit 32 (signed_take_bit 31 x) = take_bit 32 x"
    by (simp add: take_bit_signed_take_bit)
  have "(signed_take_bit 31 x - c + d) mod 2 ^ 32 = (x - c + d) mod 2 ^ 32"
    using a unfolding take_bit_eq_mod
    by (metis mod_add_cong mod_diff_cong)
  then have "take_bit 32 (signed_take_bit 31 x - c + d) = take_bit 32 (x - c + d)"
    by (simp add: take_bit_eq_mod)
  then show ?thesis
    by (simp add: ToInt32_signed signed_take_bit_eq_iff_take_bit_eq)
qed

lemma hash_step:
  "ToInt32 (js_shl (sint (w :: 32 word)) 5 - sint w + uint (b :: 8 word)) = sint (spec_step w b)"
proof -
  have "spec_step w b = word_of_int (sint w * 32 - sint w + uint b)"
    by (simp add: spec_step_def push_bit_eq_mult)
  then have r: "sint (spec_step w b) = ToInt32 (sint w * 32 - sint w + uint b)"
    by (simp only: sint_sbintrunc' ToInt32_signed) simp
  have "js_shl (sint w) 5 = ToInt32 (sint w * 32)"
    by (simp add: js_shl_def ToInt32_sint)
  then show ?thesis
    by (simp only: r ToInt32_cong)
qed

lemma script_loop_refines:
  "i \<le> length data \<Longrightarrow>
   script_generateCacheKey_loop data i (sint w) = sint (foldl spec_step w (drop i data))"
proof (induction "length data - i" arbitrary: i w)
  case 0
  then show ?case by (simp add: script_generateCacheKey_loop.simps)
next
  case (Suc n)
  then have lt: "i < length data" by simp
  have d: "drop i data = data ! i # drop (Suc i) data"
    using lt by (simp add: Cons_nth_drop_Suc)
  have "script_generateCacheKey_loop data i (sint w)
          = script_generateCacheKey_loop data (i + 1) (sint (spec_step w (data ! i)))"
    using lt by (subst script_generateCacheKey_loop.simps) (simp add: Let_def js_and_self hash_step)
  also have "\<dots> = sint (foldl spec_step (spec_step w (data ! i)) (drop (i + 1) data))"
    using Suc.hyps(1) [of "i + 1" "spec_step w (data ! i)"] Suc.hyps(2) lt by simp
  finally show ?case by (simp add: d)
qed

lemma utf8_encode_scalar_nonempty: "utf8_encode_scalar c \<noteq> []"
  by (simp add: utf8_encode_scalar_def)

lemma scalar_values_nonempty: "us \<noteq> [] \<Longrightarrow> scalar_values us \<noteq> []"
  by (induction us rule: scalar_values.induct) auto

lemma TextEncoder_encode_string_empty: "TextEncoder_encode (JString s) = [] \<longleftrightarrow> s = []"
proof
  assume e: "TextEncoder_encode (JString s) = []"
  show "s = []"
  proof (rule ccontr)
    assume "s \<noteq> []"
    then have "scalar_values (map unat s) \<noteq> []" by (simp add: scalar_values_nonempty)
    then obtain c cs where "scalar_values (map unat s) = c # cs" by (cases "scalar_values (map unat s)") auto
    with e show False by (simp add: TextEncoder_encode_def utf8_encode_scalar_nonempty)
  qed
next
  assume "s = []" then show "TextEncoder_encode (JString s) = []"
    by (simp add: TextEncoder_encode_def)
qed

lemma script_generateCacheKey_string:
  "s \<noteq> [] \<Longrightarrow> script_generateCacheKey (JString s) = spec_deriveKey (TextEncoder_encode (JString s))"
  using script_loop_refines [of 0 "TextEncoder_encode (JString s)" 0]
  by (simp add: script_generateCacheKey_def spec_deriveKey_def spec_accumulate_def)

lemma script_generateCacheKey_sentinel:
  "falsy v \<or> \<not> is_string v \<Longrightarrow> script_generateCacheKey v = ''invalid-url''"
  by (simp add: script_generateCacheKey_def)

text \<open>The cache manager's own loop raises on the first byte.\<close>

lemma generateCacheKey_raises:
  "TextEncoder_encode v \<noteq> [] \<Longrightarrow>
   generateCacheKey v = Inl (TypeError ''data.charCodeAt is not a function'')"
  by (simp add: generateCacheKey_def generateCacheKey_loop.simps [of _ 0] Uint8Array_charCodeAt_def)

lemma generateCacheKey_no_bytes:
  "TextEncoder_encode v = [] \<Longrightarrow> generateCacheKey v = Inr ''0''"
  by (simp add: generateCacheKey_def generateCacheKey_loop.simps [of _ 0] toString_radix.simps digit_char_def)

lemma generateCacheKey_string:
  "generateCacheKey (JString s) =
     (if s = [] then Inr ''0'' else Inl (TypeError ''data.charCodeAt is not a function''))"
  using generateCacheKey_raises [of "JString s"] generateCacheKey_no_bytes [of "JString s"]
  by (simp add: TextEncoder_encode_string_empty)

lemma ascii_a: "TextEncoder_encode (JString (ascii ''a'')) = [97]"
  by (simp add: TextEncoder_encode_def ascii_def utf8_encode_scalar_def is_high_surrogate_def is_low_surrogate_def)

section \<open>Properties of the retrying fetcher\<close>

text \<open>Headers built from the constants of the pool are always accepted.\<close>

lemma and_then_Inr [simp]: "and_then (Inr x) f = f x"
  by (simp add: and_then_def)

lemma and_then_Inl [simp]: "and_then (Inl e) f = Inl e"
  by (simp add: and_then_def)

lemma toLowerCase_user_agent: "toLowerCase ''user-agent'' = ''user-agent''"
  by (simp add: toLowerCase_def lower_char_def)

lemma is_header_name_user_agent: "is_header_name ''user-agent''"
  by (simp add: is_header_name_def is_tchar_def)

lemma Headers_has_user_agent:
  "Headers_has hs ''user-agent'' = Inr (map_of hs ''user-agent'' \<noteq> None)"
  by (simp add: Headers_has_def is_header_name_user_agent toLowerCase_user_agent)

lemma pool_user_agents_valid:
  "\<forall>c \<in> set USER_AGENTS. header_entry ''user-agent'' (ua c) = Inr (''user-agent'', ua c)"
  by (simp add: USER_AGENTS_def header_entry_def is_header_name_user_agent toLowerCase_user_agent
      normalize_value_def is_http_whitespace_def is_header_value_def)

lemma pool_user_agent_entry:
  "header_entry ''user-agent'' (ua (USER_AGENTS ! (n mod length USER_AGENTS)))
     = Inr (''user-agent'', ua (USER_AGENTS ! (n mod length USER_AGENTS)))"
proof -
  have "length USER_AGENTS = 9" by (simp add: USER_AGENTS_def)
  then have "USER_AGENTS ! (n mod length USER_AGENTS) \<in> set USER_AGENTS" by simp
  then show ?thesis using pool_user_agents_valid by blast
qed

lemma Headers_set_pool_user_agent:
  "Headers_set hs ''user-agent'' (ua (USER_AGENTS ! (n mod length USER_AGENTS)))
     = Inr (assoc_put ''user-agent'' (ua (USER_AGENTS ! (n mod length USER_AGENTS))) hs)"
  by (simp add: Headers_set_def pool_user_agent_entry)

lemma first_identity: "USER_AGENTS ! (nat (1 - 1) mod length USER_AGENTS) = hd USER_AGENTS"
  by (simp add: USER_AGENTS_def)

lemma merge_first_identity:
  "merge_identity_headers (ua_headers (hd USER_AGENTS)) hs =
     Inr (assoc_put ''x-real-ip'' ''47.91.20.160''
           (assoc_put ''x-forwarded-proto'' ''https''
             (assoc_put ''connection'' ''Keep-Alive''
               (assoc_put ''accept-encoding'' ''gzip, br'' hs))))"
  by (simp add: USER_AGENTS_def Headers_set_def header_entry_def is_header_name_def is_tchar_def
      toLowerCase_def lower_char_def normalize_value_def is_http_whitespace_def is_header_value_def)

lemma first_user_agent_entry:
  "header_entry ''user-agent'' (ua (hd USER_AGENTS)) = Inr (''user-agent'', ua (hd USER_AGENTS))"
proof -
  have "hd USER_AGENTS \<in> set USER_AGENTS" by (simp add: USER_AGENTS_def)
  then show ?thesis using pool_user_agents_valid by blast
qed

text \<open>Whether the request of an attempt can be built depends on \<open>options.headers\<close> alone.\<close>

lemma attempt_headers_invalid:
  "Headers_new (case opt_headers options of None \<Rightarrow> [] | Some h \<Rightarrow> h) = Inl e \<Longrightarrow>
   attempt_headers options attempt = Inl e"
  by (simp add: attempt_headers_def Let_def)

lemma attempt_headers_valid:
  assumes "Headers_new (case opt_headers options of None \<Rightarrow> [] | Some h \<Rightarrow> h) = Inr base"
  shows "attempt_headers options attempt =
     Inr (let uaConfig = USER_AGENTS ! (nat (attempt - 1) mod length USER_AGENTS);
              headers = (if map_of base ''user-agent'' = None
                         then assoc_put ''user-agent'' (ua uaConfig) base else base)
          in if attempt = 1
             then assoc_put ''x-real-ip'' ''47.91.20.160''
                   (assoc_put ''x-forwarded-proto'' ''https''
                     (assoc_put ''connection'' ''Keep-Alive''
                       (assoc_put ''accept-encoding'' ''gzip, br'' headers)))
             else headers)"
proof (cases "attempt = 1")
  case True
  show ?thesis
    unfolding True attempt_headers_def Let_def first_identity
    using assms
    by (simp add: Headers_has_user_agent merge_first_identity Headers_set_def
        first_user_agent_entry)
next
  case False
  then show ?thesis
    using assms
    by (simp add: attempt_headers_def Let_def Headers_has_user_agent Headers_set_pool_user_agent)
qed

lemma attempt_request_invalid:
  "Headers_new (case opt_headers options of None \<Rightarrow> [] | Some h \<Rightarrow> h) = Inl e \<Longrightarrow>
   attempt_request url options attempt = Inl e"
  by (simp add: attempt_request_def attempt_headers_invalid)

lemma attempt_request_valid:
  assumes "Headers_new (case opt_headers options of None \<Rightarrow> [] | Some h \<Rightarrow> h) = Inr base"
  shows "\<exists>hs. attempt_request url options attempt
           = Inr \<lparr>req_url = url, req_method = ''GET'', req_headers = hs\<rparr>
         \<and> (case opt_headers options of
              None \<Rightarrow> attempt_headers options attempt = Inr hs
            | Some h \<Rightarrow> hs = base)"
  using assms attempt_headers_valid [OF assms, of attempt]
  by (cases "opt_headers options") (simp_all add: attempt_request_def)

text \<open>One unfolding of the loop for each way an iteration can go.\<close>

lemma fetchWithRetry_loop_exhausted:
  "maxRetries < attempt \<Longrightarrow>
   fetchWithRetry_loop fetch url options maxRetries attempt lastError sent = (Inl lastError, sent)"
  by (subst fetchWithRetry_loop.simps) simp

lemma fetchWithRetry_loop_no_request:
  "attempt \<le> maxRetries \<Longrightarrow>
   attempt_request url options attempt = Inl e \<Longrightarrow>
   fetchWithRetry_loop fetch url options maxRetries attempt lastError sent =
   fetchWithRetry_loop fetch url options maxRetries (attempt + 1) e sent"
  by (subst fetchWithRetry_loop.simps) simp

lemma fetchWithRetry_loop_failure:
  "attempt \<le> maxRetries \<Longrightarrow>
   attempt_request url options attempt = Inr req \<Longrightarrow>
   attempt_result (fetch (length sent) req) = Inl e \<Longrightarrow>
   fetchWithRetry_loop fetch url options maxRetries attempt lastError sent =
   fetchWithRetry_loop fetch url options maxRetries (attempt + 1) e (sent @ [req])"
  by (subst fetchWithRetry_loop.simps) simp

lemma fetchWithRetry_loop_success:
  "attempt \<le> maxRetries \<Longrightarrow>
   attempt_request url options attempt = Inr req \<Longrightarrow>
   attempt_result (fetch (length sent) req) = Inr body \<Longrightarrow>
   fetchWithRetry_loop fetch url options maxRetries attempt lastError sent =
   (Inr body, sent @ [req])"
  by (subst fetchWithRetry_loop.simps) simp

text \<open>The runs the claims are about. With headers that can be built, \<open>rq j\<close> is the
  request of attempt \<open>j\<close>, and the \<open>j\<close>-th attempt is the call number
  \<open>length sent + (j - attempt)\<close> of \<open>fetch\<close>: every remaining attempt fails, or the
  attempts before the \<open>k\<close>-th fail and the \<open>k\<close>-th succeeds. With headers that cannot
  be built, no request is made.\<close>

lemma fetchWithRetry_loop_all_fail:
  "attempt \<le> maxRetries \<Longrightarrow>
   (\<forall>j. attempt \<le> j \<and> j \<le> maxRetries \<longrightarrow>
      attempt_request url options j = Inr (rq j)
    \<and> isl (attempt_result (fetch (length sent + nat (j - attempt)) (rq j)))) \<Longrightarrow>
   fetchWithRetry_loop fetch url options maxRetries attempt lastError sent =
     (attempt_result (fetch (length sent + nat (maxRetries - attempt)) (rq maxRetries)),
      sent @ map rq [attempt..maxRetries])"
proof (induction "nat (maxRetries - attempt)" arbitrary: attempt lastError sent)
  case 0
  then have eq: "attempt = maxRetries" by simp
  from "0.prems"(2) eq have rq: "attempt_request url options maxRetries = Inr (rq maxRetries)"
    and "isl (attempt_result (fetch (length sent) (rq maxRetries)))" by simp_all
  then obtain e where e: "attempt_result (fetch (length sent) (rq maxRetries)) = Inl e"
    by (auto simp: isl_def)
  show ?case
    using e rq eq by (simp add: fetchWithRetry_loop_failure fetchWithRetry_loop_exhausted)
next
  case (Suc n)
  then have lt: "attempt < maxRetries" by simp
  from Suc.prems(2) [rule_format, of attempt] lt
  have rq: "attempt_request url options attempt = Inr (rq attempt)"
    and "isl (attempt_result (fetch (length sent) (rq attempt)))" by simp_all
  then obtain e where e: "attempt_result (fetch (length sent) (rq attempt)) = Inl e"
    by (auto simp: isl_def)
  have step: "fetchWithRetry_loop fetch url options maxRetries attempt lastError sent =
     fetchWithRetry_loop fetch url options maxRetries (attempt + 1) e (sent @ [rq attempt])"
    using lt rq e by (simp add: fetchWithRetry_loop_failure)
  have n: "n = nat (maxRetries - (attempt + 1))" using Suc.hyps(2) by simp
  have le: "attempt + 1 \<le> maxRetries" using lt by simp
  have shift: "length (sent @ [rq attempt]) + nat (j - (attempt + 1))
               = length sent + nat (j - attempt)" if "attempt + 1 \<le> j" for j
  proof -
    have a: "Suc (nat (j - (attempt + 1))) = nat (j - attempt)" using that by arith
    show ?thesis unfolding a [symmetric] by simp
  qed
  have fails: "\<forall>j. attempt + 1 \<le> j \<and> j \<le> maxRetries \<longrightarrow>
      attempt_request url options j = Inr (rq j)
    \<and> isl (attempt_result (fetch (length (sent @ [rq attempt]) + nat (j - (attempt + 1))) (rq j)))"
  proof (intro allI impI)
    fix j assume j: "attempt + 1 \<le> j \<and> j \<le> maxRetries"
    then have "attempt_request url options j = Inr (rq j)
      \<and> isl (attempt_result (fetch (length sent + nat (j - attempt)) (rq j)))"
      using Suc.prems(2) by simp
    then show "attempt_request url options j = Inr (rq j)
      \<and> isl (attempt_result (fetch (length (sent @ [rq attempt]) + nat (j - (attempt + 1))) (rq j)))"
      using j by (simp only: shift)
  qed
  have up: "[attempt..maxRetries] = attempt # [attempt + 1..maxRetries]"
    using lt by (simp add: upto_rec1)
  show ?case
    unfolding step Suc.hyps(1) [OF n le fails] up using le by (simp only: shift) simp
qed



text \<open>What an iteration raises has a message; \<open>null\<close> is thrown only when no
  iteration ran.\<close>

lemma attempt_result_error_message:
  "attempt_result out = Inl e \<Longrightarrow> \<exists>msg. message e = Inr msg \<and> (out \<noteq> NetworkFailure [] \<longrightarrow> msg \<noteq> [])"
  by (cases out) (auto split: if_splits)

lemma attempt_result_not_null: "attempt_result out \<noteq> Inl ThrownNull"
  by (cases out) auto

lemma Headers_fill_not_null: "Headers_fill hs init \<noteq> Inl ThrownNull"
proof (induction init arbitrary: hs)
  case Nil
  then show ?case by simp
next
  case (Cons a init)
  obtain name v where a: "a = (name, v)" by (cases a)
  show ?case
  proof (cases "Headers_append hs name v")
    case (Inl e)
    then have "e = TypeError invalid_header"
      by (auto simp: Headers_append_def header_entry_def and_then_def Let_def
          split: if_splits option.splits sum.splits prod.splits)
    with Inl a show ?thesis by simp
  next
    case (Inr hs')
    with a Cons.IH show ?thesis by simp
  qed
qed

lemma attempt_request_not_null: "attempt_request url options attempt \<noteq> Inl ThrownNull"
proof (cases "Headers_new (case opt_headers options of None \<Rightarrow> [] | Some h \<Rightarrow> h)")
  case (Inl e)
  then have "e \<noteq> ThrownNull" using Headers_fill_not_null by (auto simp: Headers_new_def)
  then show ?thesis using attempt_request_invalid [OF Inl] by simp
next
  case (Inr base)
  from attempt_request_valid [OF Inr] show ?thesis by (metis sum.distinct(1))
qed

lemma fetchWithRetry_loop_error_not_null:
  "fetchWithRetry_loop fetch url options maxRetries attempt lastError sent = (Inl e, s) \<Longrightarrow>
   attempt \<le> maxRetries \<or> lastError \<noteq> ThrownNull \<Longrightarrow> e \<noteq> ThrownNull"
proof (induction fetch url options maxRetries attempt lastError sent rule: fetchWithRetry_loop.induct)
  case (1 fetch url options maxRetries attempt lastError sent)
  show ?case
  proof (cases "attempt \<le> maxRetries")
    case False
    with "1.prems" show ?thesis by (simp add: fetchWithRetry_loop_exhausted)
  next
    case True
    show ?thesis
    proof (cases "attempt_request url options attempt")
      case (Inl err)
      have ne: "err \<noteq> ThrownNull" using Inl attempt_request_not_null by metis
      have "fetchWithRetry_loop fetch url options maxRetries (attempt + 1) err sent = (Inl e, s)"
        using "1.prems"(1) True Inl by (simp add: fetchWithRetry_loop_no_request)
      then show ?thesis
        using "1.IH"(1) [OF True Inl] ne by simp
    next
      case (Inr req)
      show ?thesis
      proof (cases "attempt_result (fetch (length sent) req)")
        case body: (Inr body)
        with True Inr "1.prems"(1) show ?thesis by (simp add: fetchWithRetry_loop_success)
      next
        case err: (Inl err)
        have ne: "err \<noteq> ThrownNull" using err attempt_result_not_null by metis
        have "fetchWithRetry_loop fetch url options maxRetries (attempt + 1) err (sent @ [req])
                = (Inl e, s)"
          using "1.prems"(1) True Inr err by (simp add: fetchWithRetry_loop_failure)
        then show ?thesis
          using "1.IH"(2) [OF True Inr err] ne by simp
      qed
    qed
  qed
qed

lemma fetchWithRetry_error_not_null:
  "1 \<le> maxRetries \<Longrightarrow> fetchWithRetry fetch url options maxRetries = (Inl e, s) \<Longrightarrow> e \<noteq> ThrownNull"
  unfolding fetchWithRetry_def by (rule fetchWithRetry_loop_error_not_null) auto

lemma fetchWithRetry_no_attempt:
  "maxRetries < 1 \<Longrightarrow> fetchWithRetry fetch url options maxRetries = (Inl ThrownNull, [])"
  unfolding fetchWithRetry_def by (simp add: fetchWithRetry_loop_exhausted)


text \<open>The headers of an attempt when \<open>options\<close> has no \<open>headers\<close> property: the
  pool's user-agent, and on the first attempt the other headers of the first identity.\<close>

lemma Headers_new_empty: "Headers_new [] = Inr []"
  by (simp add: Headers_new_def)

lemma attempt_headers_later:
  "opt_headers options = None \<Longrightarrow> attempt \<noteq> 1 \<Longrightarrow>
   attempt_headers options attempt =
     Inr [(''user-agent'', ua (USER_AGENTS ! (nat (attempt - 1) mod length USER_AGENTS)))]"
  using attempt_headers_valid [of options "[]" attempt] by (simp add: Headers_new_empty)

lemma attempt_headers_first:
  "opt_headers options = None \<Longrightarrow>
   attempt_headers options 1 =
     Inr [(''user-agent'', ''FlClash/v0.8.74 clash-verge Platform/windows''),
          (''accept-encoding'', ''gzip, br''),
          (''connection'', ''Keep-Alive''),
          (''x-forwarded-proto'', ''https''),
          (''x-real-ip'', ''47.91.20.160'')]"
  using attempt_headers_valid [of options "[]" 1]
  by (simp add: Headers_new_empty) (simp add: USER_AGENTS_def)

lemma attempt_request_no_base_headers:
  "opt_headers options = None \<Longrightarrow>
   attempt_request url options attempt =
     and_then (attempt_headers options attempt)
       (\<lambda>headers. Inr \<lparr>req_url = url, req_method = ''GET'', req_headers = headers\<rparr>)"
  by (simp add: attempt_request_def)

lemma attempt_request_base_headers:
  "opt_headers options = Some h \<Longrightarrow> Headers_new h = Inr base \<Longrightarrow>
   attempt_request url options attempt =
     Inr \<lparr>req_url = url, req_method = ''GET'', req_headers = base\<rparr>"
  using attempt_request_valid [of options base url attempt] by auto

lemma Headers_new_accept:
  "Headers_new [(''accept'', ''text/plain'')] = Inr [(''accept'', ''text/plain'')]"
  by (simp add: Headers_new_def Headers_append_def header_entry_def is_header_name_def
      is_tchar_def toLowerCase_def lower_char_def normalize_value_def is_http_whitespace_def
      is_header_value_def)


text \<open>\<open>fetchWithRetry\<close> on options whose headers can be built, against a network on
  which every attempt fails.\<close>

lemma fetchWithRetry_all_fail:
  assumes "1 \<le> maxRetries"
      and "Headers_new (case opt_headers options of None \<Rightarrow> [] | Some h \<Rightarrow> h) = Inr base"
      and "\<forall>n req. isl (attempt_result (fetch n req))"
  shows "fetchWithRetry fetch url options maxRetries =
     (attempt_result (fetch (nat (maxRetries - 1)) (projr (attempt_request url options maxRetries))),
      map (\<lambda>j. projr (attempt_request url options j)) [1..maxRetries])"
proof -
  let ?rq = "\<lambda>j. projr (attempt_request url options j)"
  have rq: "attempt_request url options j = Inr (?rq j)" for j
    using attempt_request_valid [OF assms(2), of url j] by auto
  show ?thesis
    unfolding fetchWithRetry_def
    using fetchWithRetry_loop_all_fail [of 1 maxRetries url options ?rq fetch "[]" ThrownNull]
      assms(1,3) rq
    by simp
qed

section \<open>Properties of the cache operations\<close>

text \<open>Lookup after an upsert, and the keys of the table.\<close>

lemma map_of_table_put_same: "map_of (table_put k r t) k = Some r"
  by (induction t) auto

lemma map_of_table_put_other: "k' \<noteq> k \<Longrightarrow> map_of (table_put k r t) k' = map_of t k'"
  by (induction t) auto

lemma map_fst_table_put:
  "map fst (table_put k r t) = (if k \<in> fst ` set t then map fst t else map fst t @ [k])"
  by (induction t) (auto simp: rev_image_eqI)

lemma distinct_table_put: "distinct (map fst t) \<Longrightarrow> distinct (map fst (table_put k r t))"
  by (simp add: map_fst_table_put)

lemma stored_row_saveToCache_same:
  assumes "dbBinding = Some db" "subscription_cache db = Some t"
  shows "stored_row k (snd (saveToCache now k u c dbBinding)) =
           Some \<lparr>row_url = u, row_content = c, created_at = now, updated_at = now,
                 success_count = (case stored_row k dbBinding of Some r \<Rightarrow> success_count r + 1 | None \<Rightarrow> 1),
                 fail_count = (case stored_row k dbBinding of Some r \<Rightarrow> fail_count r | None \<Rightarrow> 0)\<rparr>"
  using assms by (simp add: saveToCache_def stored_row_def Let_def map_of_table_put_same)

lemma stored_row_saveToCache_other:
  "k' \<noteq> k \<Longrightarrow> stored_row k' (snd (saveToCache now k u c dbBinding)) = stored_row k' dbBinding"
  by (simp add: saveToCache_def stored_row_def Let_def map_of_table_put_other split: option.splits)

lemma saveToCache_configured:
  assumes "dbBinding = Some db" "subscription_cache db = Some t"
  shows "fst (saveToCache now k u c dbBinding) = True"
    and "\<exists>t'. snd (saveToCache now k u c dbBinding) = Some (db\<lparr>subscription_cache := Some t'\<rparr>)"
proof -
  show "fst (saveToCache now k u c dbBinding) = True"
    using assms by (simp add: saveToCache_def Let_def)
  have "snd (saveToCache now k u c dbBinding) =
          Some (db\<lparr>subscription_cache := Some (table_put k
            \<lparr>row_url = u, row_content = c, created_at = now, updated_at = now,
             success_count = (case map_of t k of Some r \<Rightarrow> success_count r + 1 | None \<Rightarrow> 1),
             fail_count = (case map_of t k of Some r \<Rightarrow> fail_count r | None \<Rightarrow> 0)\<rparr> t)\<rparr>)"
    using assms by (simp add: saveToCache_def Let_def)
  then show "\<exists>t'. snd (saveToCache now k u c dbBinding) = Some (db\<lparr>subscription_cache := Some t'\<rparr>)"
    by (rule exI)
qed

lemma stored_row_configured:
  "stored_row k dbBinding = Some r \<Longrightarrow>
   \<exists>db t. dbBinding = Some db \<and> subscription_cache db = Some t \<and> map_of t k = Some r"
  by (auto simp: stored_row_def split: option.splits)

text \<open>\<open>recordFailAttempt\<close> as seen through \<open>stored_row\<close>.\<close>

lemma map_of_bump:
  "map_of (map (\<lambda>(k', r). if k' = k then (k', f r) else (k', r)) t) k'' =
     (if k'' = k then map_option f (map_of t k) else map_of t k'')"
  by (induction t) auto

lemma stored_row_recordFailAttempt:
  "stored_row k' (snd (recordFailAttempt now k dbBinding)) =
     (if k' = k
      then map_option (\<lambda>r. r\<lparr>fail_count := fail_count r + 1, updated_at := now\<rparr>) (stored_row k dbBinding)
      else stored_row k' dbBinding)"
  by (simp add: recordFailAttempt_def stored_row_def map_of_bump split: option.splits)

lemma fst_recordFailAttempt:
  "fst (recordFailAttempt now k dbBinding) \<longleftrightarrow>
     (\<exists>db t. dbBinding = Some db \<and> subscription_cache db = Some t)"
  by (simp add: recordFailAttempt_def split: option.splits)

lemma map_bump_absent:
  "map_of t k = None \<Longrightarrow> map (\<lambda>(k', r). if k' = k then (k', f r) else (k', r)) t = t"
  by (induction t) (auto split: if_splits)

lemma recordFailAttempt_absent:
  "stored_row k dbBinding = None \<Longrightarrow> snd (recordFailAttempt now k dbBinding) = dbBinding"
  by (auto simp: recordFailAttempt_def stored_row_def map_bump_absent split: option.splits)

text \<open>Any number of recorded failures, at the times given.\<close>

lemma stored_row_recordFailAttempt_fold:
  "stored_row k (fold (\<lambda>now d. snd (recordFailAttempt now k d)) nows dbBinding) =
     map_option (\<lambda>r. r\<lparr>fail_count := fail_count r + int (length nows),
                       updated_at := (if nows = [] then updated_at r else last nows)\<rparr>)
       (stored_row k dbBinding)"
proof (induction nows arbitrary: dbBinding)
  case Nil
  then show ?case by (cases "stored_row k dbBinding") auto
next
  case (Cons a nows)
  show ?case
    unfolding fold_Cons comp_apply Cons.IH stored_row_recordFailAttempt
    by (cases "stored_row k dbBinding") auto
qed

text \<open>Numbers in the range of time values cross from D1 to JavaScript unchanged.\<close>

lemma js_number_exact: "\<bar>x\<bar> \<le> 2 ^ 53 \<Longrightarrow> js_number x = x"
  by (simp add: js_number_def Let_def nat_le_iff)

lemma js_number_time_value: "valid_time_value t \<Longrightarrow> js_number t = t"
  by (rule js_number_exact) (simp add: valid_time_value_def)

lemma getCachedContent_stored_row:
  "getCachedContent k dbBinding =
     (case stored_row k dbBinding of
        None \<Rightarrow> None
      | Some r \<Rightarrow>
          if valid_time_value (js_number (created_at r))
          then Some \<lparr>cached_content = row_content r, successCount = js_number (success_count r),
                     failCount = js_number (fail_count r), createdAt = js_number (created_at r)\<rparr>
          else None)"
  by (simp add: getCachedContent_def stored_row_def split: option.splits)

text \<open>Counting rows is counting keys, since keys are distinct.\<close>

lemma keys_filter_table:
  "distinct (map fst t) \<Longrightarrow>
   {k. \<exists>r. map_of t k = Some r \<and> P r} = fst ` set (filter (\<lambda>(k, r). P r) t)"
proof (induction t)
  case Nil
  then show ?case by simp
next
  case (Cons a t)
  obtain k0 r0 where a: "a = (k0, r0)" by (cases a)
  from Cons.prems a have notin: "k0 \<notin> fst ` set t" and d: "distinct (map fst t)" by auto
  have none: "map_of t k0 = None" using notin by (simp add: map_of_eq_None_iff)
  have "{k. \<exists>r. map_of (a # t) k = Some r \<and> P r}
        = (if P r0 then {k0} else {}) \<union> {k. \<exists>r. map_of t k = Some r \<and> P r}"
    using none a by auto
  then show ?case using Cons.IH [OF d] a by auto
qed

lemma card_keys_filter_table:
  assumes "distinct (map fst t)"
  shows "card {k. \<exists>r. map_of t k = Some r \<and> P r} = length (filter (\<lambda>(k, r). P r) t)"
proof -
  have d: "distinct (map fst (filter (\<lambda>(k, r). P r) t))"
    using assms by (rule distinct_map_filter)
  have "card (fst ` set (filter (\<lambda>(k, r). P r) t)) = card (set (map fst (filter (\<lambda>(k, r). P r) t)))"
    by simp
  also have "\<dots> = length (map fst (filter (\<lambda>(k, r). P r) t))"
    using d by (rule distinct_card)
  finally show ?thesis using keys_filter_table [OF assms, of P] by simp
qed

lemma card_keys_table:
  assumes "distinct (map fst t)"
  shows "card {k. map_of t k \<noteq> None} = length t"
  using card_keys_filter_table [OF assms, of "\<lambda>r. True"] by simp

section \<open>Properties of fetchWithCache\<close>

text \<open>The key is derived first, so a URL that is not empty never reaches the fetcher.\<close>

lemma fetchWithCache_raises:
  "url \<noteq> [] \<Longrightarrow>
   fetchWithCache fetch now url options dbBinding =
     (Inl (TypeError ''data.charCodeAt is not a function''), [], dbBinding)"
  by (simp add: fetchWithCache_def generateCacheKey_string)

text \<open>Once a key has been derived, the result follows the outcome of \<open>fetchWithRetry\<close>.\<close>

lemma maxRetries_or_default_falsy:
  "opt_maxRetries options = None \<or> opt_maxRetries options = Some 0 \<Longrightarrow>
   maxRetries_or_default options = 3"
  by (auto simp: maxRetries_or_default_def)

lemma fetchWithCache_on_success:
  assumes "generateCacheKey (JString url) = Inr k"
      and "fetchWithRetry fetch url options (maxRetries_or_default options) = (Inr body, sent)"
  shows "fetchWithCache fetch now url options dbBinding =
           (Inr \<lparr>content = Some body, fromCache = False, success = True, warning = None, error = None\<rparr>,
            sent, snd (saveToCache now k url body dbBinding))"
  using assms by (simp add: fetchWithCache_def Let_def split: prod.splits)

lemma fetchWithCache_on_failure:
  assumes "generateCacheKey (JString url) = Inr k"
      and "fetchWithRetry fetch url options (maxRetries_or_default options) = (Inl e, sent)"
      and "message e = Inr msg"
  shows "fetchWithCache fetch now url options dbBinding =
           (Inr (case stored_row k dbBinding of
                   Some r \<Rightarrow>
                     if valid_time_value (js_number (created_at r)) \<and> row_content r \<noteq> []
                     then \<lparr>content = Some (row_content r), fromCache = True, success = True,
                           warning = Some ''Remote fetch failed, using cached content'', error = None\<rparr>
                     else \<lparr>content = None, fromCache = False, success = False,
                           warning = None, error = Some msg\<rparr>
                 | None \<Rightarrow> \<lparr>content = None, fromCache = False, success = False,
                             warning = None, error = Some msg\<rparr>),
            sent, dbBinding)"
  using assms
  by (auto simp: fetchWithCache_def Let_def getCachedContent_stored_row split: option.splits)

lemma fetchWithCache_null_error:
  assumes "generateCacheKey (JString url) = Inr k"
      and "maxRetries_or_default options < 1"
  shows "fetchWithCache fetch now url options dbBinding =
           (Inl (TypeError ''Cannot read properties of null (reading 'message')''), [], dbBinding)"
  using assms by (simp add: fetchWithCache_def Let_def fetchWithRetry_no_attempt)

lemma generateCacheKey_empty_url: "generateCacheKey (JString []) = Inr ''0''"
  by (simp add: generateCacheKey_string)

lemma maxRetries_or_default_absent:
  "maxRetries_or_default \<lparr>opt_headers = h, opt_maxRetries = None\<rparr> = 3"
  by (simp add: maxRetries_or_default_def)

lemma fetchWithCache_returns:
  assumes key: "generateCacheKey (JString url) = Inr k"
      and budget: "1 \<le> maxRetries_or_default options"
  shows "\<exists>r. fst (fetchWithCache fetch now url options dbBinding) = Inr r
           \<and> (\<not> success r \<longleftrightarrow>
                isl (fst (fetchWithRetry fetch url options (maxRetries_or_default options)))
              \<and> (\<forall>row. stored_row k dbBinding = Some row \<longrightarrow>
                    row_content row = [] \<or> \<not> valid_time_value (js_number (created_at row))))"
proof (cases "fetchWithRetry fetch url options (maxRetries_or_default options)")
  case (Pair res sent)
  show ?thesis
  proof (cases res)
    case (Inr body)
    with Pair fetchWithCache_on_success [OF key, of fetch options body sent now dbBinding]
    show ?thesis by simp
  next
    case (Inl e)
    with Pair have f: "fetchWithRetry fetch url options (maxRetries_or_default options) = (Inl e, sent)"
      by simp
    from fetchWithRetry_error_not_null [OF budget f] obtain msg where m: "message e = Inr msg"
      by (cases e) auto
    show ?thesis
      unfolding fetchWithCache_on_failure [OF key f m] f
      by (cases "stored_row k dbBinding") auto
  qed
qed

lemma fetchWithCache_default_budget:
  assumes key: "generateCacheKey (JString url) = Inr k"
      and falsy: "opt_maxRetries options = None \<or> opt_maxRetries options = Some 0"
      and valid: "Headers_new (case opt_headers options of None \<Rightarrow> [] | Some h \<Rightarrow> h) = Inr base"
      and fails: "\<forall>n req. isl (attempt_result (fetch n req))"
  shows "length (fst (snd (fetchWithCache fetch now url options dbBinding))) = 3"
proof -
  have m: "maxRetries_or_default options = 3" using falsy by (rule maxRetries_or_default_falsy)
  then have budget: "1 \<le> maxRetries_or_default options" by simp
  let ?last = "fetch (nat (maxRetries_or_default options - 1))
                 (projr (attempt_request url options (maxRetries_or_default options)))"
  from fails obtain e where e: "attempt_result ?last = Inl e" by (meson isl_def)
  from attempt_result_error_message [OF e] obtain msg where msg: "message e = Inr msg" by blast
  have retry: "fetchWithRetry fetch url options (maxRetries_or_default options)
                 = (Inl e, map (\<lambda>j. projr (attempt_request url options j))
                             [1..maxRetries_or_default options])"
    using fetchWithRetry_all_fail [OF budget valid fails, of url] e by simp
  show ?thesis
    unfolding fetchWithCache_on_failure [OF key retry msg] by (simp add: m)
qed

section \<open>The claims\<close>

text \<open>
  Claim C1. \<open>fetchWithCache\<close> is specified never to raise to its caller. For the URL
  \<open>https://a.test/sub\<close> and empty options it raises the \<open>TypeError\<close> of the key
  derivation, whatever the network and the cache are: the key is derived before the
  \<open>try\<close> block is entered, no request is made and the cache is left as it was.
\<close>

theorem fetchWithCache_raises_on_url:
  "fetchWithCache fetch now (ascii ''https://a.test/sub'')
     \<lparr>opt_headers = None, opt_maxRetries = None\<rparr> dbBinding =
   (Inl (TypeError ''data.charCodeAt is not a function''), [], dbBinding)"
  by (rule fetchWithCache_raises) (simp add: ascii_def)

text \<open>
  Claim C2. \<open>generateCacheKey\<close> of cacheManager.js is specified to return, for every
  string, the lower-case hexadecimal rendering of the absolute value of the 32-bit hash of
  the UTF-8 bytes, and never to raise. On the one-character URL \<open>a\<close> it raises a
  \<open>TypeError\<close>, while the copy in scripts/cache.js returns the specified key \<open>61\<close>.
\<close>

theorem generateCacheKey_raises_on_string:
  "generateCacheKey (JString (ascii ''a'')) = Inl (TypeError ''data.charCodeAt is not a function'')
   \<and> script_generateCacheKey (JString (ascii ''a'')) = ''61''
   \<and> spec_deriveKey (TextEncoder_encode (JString (ascii ''a''))) = ''61''"
proof -
  have ne: "ascii ''a'' \<noteq> []" by (simp add: ascii_def)
  have 1: "generateCacheKey (JString (ascii ''a'')) = Inl (TypeError ''data.charCodeAt is not a function'')"
    using ne by (simp add: generateCacheKey_string)
  have 3: "spec_deriveKey (TextEncoder_encode (JString (ascii ''a''))) = ''61''"
    by (simp add: spec_deriveKey_def spec_accumulate_def ascii_a
        spec_step_def toString_radix.simps digit_char_def)
  have 2: "script_generateCacheKey (JString (ascii ''a'')) = ''61''"
    using ne 3 by (simp add: script_generateCacheKey_string)
  show ?thesis using 1 2 3 by simp
qed

text \<open>
  Claim C3. When every attempt fails and the cache holds an entry for the key of the URL,
  \<open>fetchWithCache\<close> is specified to return the stored content. For the URL
  \<open>https://a.test/sub\<close>, whose specified key is \<open>1df34a3f\<close> (the key the script
  derives), a network that is down and a cache holding \<open>PROXYLIST_V1\<close> under that key,
  the call raises the \<open>TypeError\<close> of the key derivation: no request is made and the
  cache is never consulted.
\<close>

theorem fetchWithCache_fallback_unreached:
  "spec_deriveKey (TextEncoder_encode (JString (ascii ''https://a.test/sub''))) = ''1df34a3f''
   \<and> script_generateCacheKey (JString (ascii ''https://a.test/sub'')) = ''1df34a3f''
   \<and> stored_row ''1df34a3f''
         (Some \<lparr>subscription_cache = Some [(''1df34a3f'',
            \<lparr>row_url = ascii ''https://a.test/sub'', row_content = ''PROXYLIST_V1'',
             created_at = 1000, updated_at = 1000, success_count = 1, fail_count = 0\<rparr>)]\<rparr>)
       = Some \<lparr>row_url = ascii ''https://a.test/sub'', row_content = ''PROXYLIST_V1'',
               created_at = 1000, updated_at = 1000, success_count = 1, fail_count = 0\<rparr>
   \<and> fetchWithCache (\<lambda>n req. NetworkFailure ''down'') 5000 (ascii ''https://a.test/sub'')
         \<lparr>opt_headers = None, opt_maxRetries = None\<rparr>
         (Some \<lparr>subscription_cache = Some [(''1df34a3f'',
            \<lparr>row_url = ascii ''https://a.test/sub'', row_content = ''PROXYLIST_V1'',
             created_at = 1000, updated_at = 1000, success_count = 1, fail_count = 0\<rparr>)]\<rparr>)
       = (Inl (TypeError ''data.charCodeAt is not a function''), [],
          Some \<lparr>subscription_cache = Some [(''1df34a3f'',
            \<lparr>row_url = ascii ''https://a.test/sub'', row_content = ''PROXYLIST_V1'',
             created_at = 1000, updated_at = 1000, success_count = 1, fail_count = 0\<rparr>)]\<rparr>)"
proof -
  have ne: "ascii ''https://a.test/sub'' \<noteq> []" by (simp add: ascii_def)
  have enc: "TextEncoder_encode (JString (ascii ''https://a.test/sub''))
     = [104, 116, 116, 112, 115, 58, 47, 47, 97, 46, 116, 101, 115, 116, 47, 115, 117, 98]"
    by (simp add: TextEncoder_encode_def ascii_def utf8_encode_scalar_def is_high_surrogate_def
        is_low_surrogate_def)
  have 1: "spec_deriveKey (TextEncoder_encode (JString (ascii ''https://a.test/sub''))) = ''1df34a3f''"
    unfolding enc
    by (simp add: spec_deriveKey_def spec_accumulate_def spec_step_def push_bit_eq_mult
        toString_radix.simps digit_char_def)
  have 2: "script_generateCacheKey (JString (ascii ''https://a.test/sub'')) = ''1df34a3f''"
    using ne 1 by (simp add: script_generateCacheKey_string)
  show ?thesis
    using 1 2 fetchWithCache_raises [OF ne] by (simp add: stored_row_def)
qed




text \<open>
  Claim C5. The request of an attempt is specified to carry the pool's user-agent when the
  base headers have none, and the other headers of the identity on the first attempt.
  With base headers \<open>{accept: text/plain}\<close> and a failing network, each of the three
  requests carries the base headers only: the \<open>Headers\<close> object built for the first
  attempt, which does hold the pool's user-agent and the other headers of the identity,
  is replaced by \<open>options.headers\<close> when \<open>options\<close> is spread into the init object.
\<close>

theorem attempt_request_drops_identity:
  "map req_headers
     (snd (fetchWithRetry (\<lambda>n req. NetworkFailure ''down'') (ascii ''u'')
             \<lparr>opt_headers = Some [(''accept'', ''text/plain'')], opt_maxRetries = None\<rparr> 3))
     = [[(''accept'', ''text/plain'')], [(''accept'', ''text/plain'')], [(''accept'', ''text/plain'')]]
   \<and> attempt_headers \<lparr>opt_headers = Some [(''accept'', ''text/plain'')], opt_maxRetries = None\<rparr> 1
     = Inr [(''accept'', ''text/plain''),
            (''user-agent'', ''FlClash/v0.8.74 clash-verge Platform/windows''),
            (''accept-encoding'', ''gzip, br''),
            (''connection'', ''Keep-Alive''),
            (''x-forwarded-proto'', ''https''),
            (''x-real-ip'', ''47.91.20.160'')]"
proof -
  let ?o = "\<lparr>opt_headers = Some [(''accept'', ''text/plain'')], opt_maxRetries = None\<rparr>"
  let ?down = "(\<lambda>n req. NetworkFailure ''down'') :: network"
  have valid: "Headers_new (case opt_headers ?o of None \<Rightarrow> [] | Some h \<Rightarrow> h)
                 = Inr [(''accept'', ''text/plain'')]"
    by (simp add: Headers_new_accept)
  have rq: "attempt_request (ascii ''u'') ?o j
              = Inr \<lparr>req_url = ascii ''u'', req_method = ''GET'',
                     req_headers = [(''accept'', ''text/plain'')]\<rparr>" for j
    using attempt_request_base_headers
        [of ?o "[(''accept'', ''text/plain'')]" "[(''accept'', ''text/plain'')]" "ascii ''u''" j]
    by (simp add: Headers_new_accept)
  have "snd (fetchWithRetry ?down (ascii ''u'') ?o 3)
          = map (\<lambda>j. projr (attempt_request (ascii ''u'') ?o j)) [1..3]"
    using fetchWithRetry_all_fail [of 3 ?o "[(''accept'', ''text/plain'')]" ?down "ascii ''u''"] valid
    by simp
  moreover have "[1..3::int] = [1, 2, 3]" by (simp add: upto_rec1)
  ultimately have 1: "map req_headers (snd (fetchWithRetry ?down (ascii ''u'') ?o 3))
     = [[(''accept'', ''text/plain'')], [(''accept'', ''text/plain'')], [(''accept'', ''text/plain'')]]"
    by (simp add: rq)
  have 2: "attempt_headers ?o 1
     = Inr [(''accept'', ''text/plain''),
            (''user-agent'', ''FlClash/v0.8.74 clash-verge Platform/windows''),
            (''accept-encoding'', ''gzip, br''),
            (''connection'', ''Keep-Alive''),
            (''x-forwarded-proto'', ''https''),
            (''x-real-ip'', ''47.91.20.160'')]"
    using attempt_headers_valid [OF valid, of 1] by (simp add: USER_AGENTS_def)
  show ?thesis using 1 2 by simp
qed

text \<open>
  Claim C6. On a configured store, \<open>saveToCache(k, u, c)\<close> returns true and upserts: the
  row found under \<open>k\<close> afterwards holds \<open>u\<close> and \<open>c\<close>, its timestamps are the current
  time, its success counter is the old one plus one (1 for a new key) and its failure
  counter is the old one (0 for a new key); rows under other keys are untouched. Two
  such calls in a row give a success counter of the old one plus two (2 on a fresh key),
  the content \<open>c\<close> and the failure counter unchanged.
\<close>

theorem saveToCache_upsert:
  assumes "dbBinding = Some db" and "subscription_cache db = Some t"
  shows "fst (saveToCache now k u c dbBinding) = True
       \<and> stored_row k (snd (saveToCache now k u c dbBinding)) =
           Some \<lparr>row_url = u, row_content = c, created_at = now, updated_at = now,
                 success_count = (case stored_row k dbBinding of Some r \<Rightarrow> success_count r + 1 | None \<Rightarrow> 1),
                 fail_count = (case stored_row k dbBinding of Some r \<Rightarrow> fail_count r | None \<Rightarrow> 0)\<rparr>
       \<and> (\<forall>k'. k' \<noteq> k \<longrightarrow>
             stored_row k' (snd (saveToCache now k u c dbBinding)) = stored_row k' dbBinding)
       \<and> stored_row k (snd (saveToCache now' k u c (snd (saveToCache now k u c dbBinding)))) =
           Some \<lparr>row_url = u, row_content = c, created_at = now', updated_at = now',
                 success_count = (case stored_row k dbBinding of Some r \<Rightarrow> success_count r + 2 | None \<Rightarrow> 2),
                 fail_count = (case stored_row k dbBinding of Some r \<Rightarrow> fail_count r | None \<Rightarrow> 0)\<rparr>"
proof -
  let ?d1 = "snd (saveToCache now k u c dbBinding)"
  have first: "stored_row k ?d1 =
           Some \<lparr>row_url = u, row_content = c, created_at = now, updated_at = now,
                 success_count = (case stored_row k dbBinding of Some r \<Rightarrow> success_count r + 1 | None \<Rightarrow> 1),
                 fail_count = (case stored_row k dbBinding of Some r \<Rightarrow> fail_count r | None \<Rightarrow> 0)\<rparr>"
    using assms by (rule stored_row_saveToCache_same)
  from saveToCache_configured(2) [OF assms, of now k u c]
  obtain t' where d1: "?d1 = Some (db\<lparr>subscription_cache := Some t'\<rparr>)" by blast
  have t': "subscription_cache (db\<lparr>subscription_cache := Some t'\<rparr>) = Some t'" by simp
  have second: "stored_row k (snd (saveToCache now' k u c ?d1)) =
           Some \<lparr>row_url = u, row_content = c, created_at = now', updated_at = now',
                 success_count = (case stored_row k ?d1 of Some r \<Rightarrow> success_count r + 1 | None \<Rightarrow> 1),
                 fail_count = (case stored_row k ?d1 of Some r \<Rightarrow> fail_count r | None \<Rightarrow> 0)\<rparr>"
    using d1 t' by (rule stored_row_saveToCache_same)
  have twice: "stored_row k (snd (saveToCache now' k u c ?d1)) =
           Some \<lparr>row_url = u, row_content = c, created_at = now', updated_at = now',
                 success_count = (case stored_row k dbBinding of Some r \<Rightarrow> success_count r + 2 | None \<Rightarrow> 2),
                 fail_count = (case stored_row k dbBinding of Some r \<Rightarrow> fail_count r | None \<Rightarrow> 0)\<rparr>"
    unfolding second first by (simp split: option.splits)
  show ?thesis
    using first twice saveToCache_configured(1) [OF assms] stored_row_saveToCache_other by simp
qed

theorem saveToCache_upsert_witness:
  "fst (saveToCache 1000 ''k'' (ascii ''u'') ''X'' (Some \<lparr>subscription_cache = Some []\<rparr>)) = True
   \<and> stored_row ''k'' (snd (saveToCache 2000 ''k'' (ascii ''u'') ''X''
        (snd (saveToCache 1000 ''k'' (ascii ''u'') ''X'' (Some \<lparr>subscription_cache = Some []\<rparr>))))) =
      Some \<lparr>row_url = ascii ''u'', row_content = ''X'', created_at = 2000, updated_at = 2000,
            success_count = 2, fail_count = 0\<rparr>"
  using saveToCache_upsert [of "Some \<lparr>subscription_cache = Some []\<rparr>" "\<lparr>subscription_cache = Some []\<rparr>"
      "[]" 1000 "''k''" "ascii ''u''" "''X''" 2000]
  by (simp add: stored_row_def)

text \<open>
  Claim C7, as stated, fails on the return value: on a configured store without a row for
  the key, \<open>recordFailAttempt\<close> leaves the table as it is and returns true, not false.
\<close>

theorem recordFailAttempt_absent_returns_true:
  "stored_row ''k'' (Some \<lparr>subscription_cache = Some []\<rparr>) = None
   \<and> recordFailAttempt 1000 ''k'' (Some \<lparr>subscription_cache = Some []\<rparr>)
       = (True, Some \<lparr>subscription_cache = Some []\<rparr>)"
  by (simp add: stored_row_def recordFailAttempt_def)

text \<open>
  Claim C7, amended. On an existing row \<open>recordFailAttempt(k)\<close> returns true, adds one to
  the failure counter and sets \<open>updated_at\<close> to the current time, and changes nothing
  else in the row (content and success counter among the rest). Without a row for \<open>k\<close>
  it leaves the binding as it is, and returns true exactly when the store is configured
  and its table exists. Rows under other keys are never touched, so no entry is created.
  After \<open>saveToCache(k, u, c)\<close> on a configured store, any number of recorded failures
  leaves \<open>getCachedContent(k)\<close> with content \<open>c\<close> and the same success counter.
\<close>

theorem recordFailAttempt_frame:
  "(\<forall>r. stored_row k dbBinding = Some r \<longrightarrow>
        fst (recordFailAttempt now k dbBinding) = True
      \<and> stored_row k (snd (recordFailAttempt now k dbBinding))
          = Some (r\<lparr>fail_count := fail_count r + 1, updated_at := now\<rparr>))
   \<and> (stored_row k dbBinding = None \<longrightarrow>
        snd (recordFailAttempt now k dbBinding) = dbBinding
      \<and> (fst (recordFailAttempt now k dbBinding) \<longleftrightarrow>
           (\<exists>db t. dbBinding = Some db \<and> subscription_cache db = Some t)))
   \<and> (\<forall>k'. k' \<noteq> k \<longrightarrow>
        stored_row k' (snd (recordFailAttempt now k dbBinding)) = stored_row k' dbBinding)
   \<and> (\<forall>db t. dbBinding = Some db \<and> subscription_cache db = Some t \<and> valid_time_value now0 \<longrightarrow>
        map_option cached_content
          (getCachedContent k
             (fold (\<lambda>now' d. snd (recordFailAttempt now' k d)) nows
                (snd (saveToCache now0 k u c dbBinding)))) = Some c
      \<and> map_option successCount
          (getCachedContent k
             (fold (\<lambda>now' d. snd (recordFailAttempt now' k d)) nows
                (snd (saveToCache now0 k u c dbBinding))))
          = map_option successCount (getCachedContent k (snd (saveToCache now0 k u c dbBinding))))"
proof (intro conjI allI impI)
  fix r assume r: "stored_row k dbBinding = Some r"
  then show "fst (recordFailAttempt now k dbBinding) = True"
    using stored_row_configured [OF r] by (auto simp: fst_recordFailAttempt)
  show "stored_row k (snd (recordFailAttempt now k dbBinding))
          = Some (r\<lparr>fail_count := fail_count r + 1, updated_at := now\<rparr>)"
    using r by (simp add: stored_row_recordFailAttempt)
next
  assume "stored_row k dbBinding = None"
  then show "snd (recordFailAttempt now k dbBinding) = dbBinding"
    by (rule recordFailAttempt_absent)
next
  show "fst (recordFailAttempt now k dbBinding) \<longleftrightarrow>
           (\<exists>db t. dbBinding = Some db \<and> subscription_cache db = Some t)"
    by (rule fst_recordFailAttempt)
next
  fix k' assume "k' \<noteq> k"
  then show "stored_row k' (snd (recordFailAttempt now k dbBinding)) = stored_row k' dbBinding"
    by (simp add: stored_row_recordFailAttempt)
next
  fix db t
  assume a: "dbBinding = Some db \<and> subscription_cache db = Some t \<and> valid_time_value now0"
  then have c: "dbBinding = Some db" "subscription_cache db = Some t" by simp_all
  from a have v: "valid_time_value now0" by simp
  note put = stored_row_saveToCache_same [OF c, of k now0 u c]
  show "map_option cached_content
          (getCachedContent k
             (fold (\<lambda>now' d. snd (recordFailAttempt now' k d)) nows
                (snd (saveToCache now0 k u c dbBinding)))) = Some c"
    using v by (simp add: getCachedContent_stored_row stored_row_recordFailAttempt_fold put
        js_number_time_value)
  show "map_option successCount
          (getCachedContent k
             (fold (\<lambda>now' d. snd (recordFailAttempt now' k d)) nows
                (snd (saveToCache now0 k u c dbBinding))))
          = map_option successCount (getCachedContent k (snd (saveToCache now0 k u c dbBinding)))"
    using v by (simp add: getCachedContent_stored_row stored_row_recordFailAttempt_fold put
        js_number_time_value)
qed

theorem recordFailAttempt_frame_witness:
  "stored_row ''k'' (snd (recordFailAttempt 2000 ''k''
       (Some \<lparr>subscription_cache = Some [(''k'',
          \<lparr>row_url = ascii ''u'', row_content = ''X'', created_at = 1000, updated_at = 1000,
           success_count = 1, fail_count = 0\<rparr>)]\<rparr>)))
     = Some \<lparr>row_url = ascii ''u'', row_content = ''X'', created_at = 1000, updated_at = 2000,
             success_count = 1, fail_count = 1\<rparr>
   \<and> snd (recordFailAttempt 2000 ''k'' (Some \<lparr>subscription_cache = Some []\<rparr>))
       = Some \<lparr>subscription_cache = Some []\<rparr>
   \<and> fst (recordFailAttempt 2000 ''k'' None) = False
   \<and> map_option cached_content
        (getCachedContent ''k''
           (fold (\<lambda>now' d. snd (recordFailAttempt now' ''k'' d)) [2000, 3000, 4000]
              (snd (saveToCache 1000 ''k'' (ascii ''u'') ''X'' (Some \<lparr>subscription_cache = Some []\<rparr>)))))
       = Some ''X''"
proof -
  let ?r = "\<lparr>row_url = ascii ''u'', row_content = ''X'', created_at = 1000, updated_at = 1000,
           success_count = 1, fail_count = 0\<rparr>"
  let ?d = "Some \<lparr>subscription_cache = Some [(''k'', ?r)]\<rparr>"
  let ?e = "Some \<lparr>subscription_cache = Some []\<rparr>"
  have h1: "stored_row ''k'' ?d = Some ?r" by (simp add: stored_row_def)
  have h2: "stored_row ''k'' ?e = None" by (simp add: stored_row_def)
  have h3: "stored_row ''k'' None = None" by (simp add: stored_row_def)
  have h4: "?e = Some \<lparr>subscription_cache = Some []\<rparr>
            \<and> subscription_cache \<lparr>subscription_cache = Some []\<rparr> = Some []
            \<and> valid_time_value 1000" by (simp add: valid_time_value_def)
  have 1: "stored_row ''k'' (snd (recordFailAttempt 2000 ''k'' ?d))
             = Some (?r\<lparr>fail_count := fail_count ?r + 1, updated_at := 2000\<rparr>)"
    using recordFailAttempt_frame [of "''k''" ?d 2000, THEN conjunct1, rule_format, OF h1]
    by (rule conjunct2)
  have 2: "snd (recordFailAttempt 2000 ''k'' ?e) = ?e"
    using recordFailAttempt_frame [of "''k''" ?e 2000, THEN conjunct2, THEN conjunct1, rule_format, OF h2]
    by (rule conjunct1)
  have "fst (recordFailAttempt 2000 ''k'' None) \<longleftrightarrow>
          (\<exists>db t. (None :: d1 option) = Some db \<and> subscription_cache db = Some t)"
    using recordFailAttempt_frame [of "''k''" None 2000, THEN conjunct2, THEN conjunct1, rule_format, OF h3]
    by (rule conjunct2)
  then have 3: "fst (recordFailAttempt 2000 ''k'' None) = False" by simp
  have 4: "map_option cached_content
        (getCachedContent ''k''
           (fold (\<lambda>now' d. snd (recordFailAttempt now' ''k'' d)) [2000, 3000, 4000]
              (snd (saveToCache 1000 ''k'' (ascii ''u'') ''X'' ?e)))) = Some ''X''"
    using recordFailAttempt_frame [of "''k''" ?e 2000 1000 "[2000, 3000, 4000]" "ascii ''u''" "''X''",
        THEN conjunct2, THEN conjunct2, THEN conjunct2, rule_format, OF h4]
    by (rule conjunct1)
  show ?thesis using 1 2 3 4 by simp
qed

text \<open>
  Claim C8, as stated, fails: for a cache holding one entry with success counter 2, failure
  counter 1 and a content of 5 characters, \<open>getCacheStats\<close> returns
  \<open>{totalCached: 1, withSuccess: 1}\<close>, not the object
  \<open>{totalEntries: 1, totalSuccess: 2, totalFail: 1, totalBytes: 5}\<close> of the specification.
\<close>

theorem getCacheStats_shape_counterexample:
  "getCacheStats (Some \<lparr>subscription_cache = Some [(''k'',
       \<lparr>row_url = ascii ''u'', row_content = ''hello'', created_at = 1000, updated_at = 1000,
        success_count = 2, fail_count = 1\<rparr>)]\<rparr>)
     = [(''totalCached'', JNumber 1), (''withSuccess'', JNumber 1)]
   \<and> spec_stats [(''k'',
       \<lparr>row_url = ascii ''u'', row_content = ''hello'', created_at = 1000, updated_at = 1000,
        success_count = 2, fail_count = 1\<rparr>)]
     = [(''totalEntries'', JNumber 1), (''totalSuccess'', JNumber 2),
        (''totalFail'', JNumber 1), (''totalBytes'', JNumber 5)]
   \<and> getCacheStats (Some \<lparr>subscription_cache = Some [(''k'',
       \<lparr>row_url = ascii ''u'', row_content = ''hello'', created_at = 1000, updated_at = 1000,
        success_count = 2, fail_count = 1\<rparr>)]\<rparr>)
     \<noteq> spec_stats [(''k'',
       \<lparr>row_url = ascii ''u'', row_content = ''hello'', created_at = 1000, updated_at = 1000,
        success_count = 2, fail_count = 1\<rparr>)]"
  by (simp add: getCacheStats_def spec_stats_def)

text \<open>
  Claim C8, amended. On a configured store \<open>getCacheStats\<close> returns an object with the
  two properties \<open>totalCached\<close>, the number of keys that have a row, and \<open>withSuccess\<close>,
  the number of keys whose row has a positive success counter. Without a binding, or
  without the table, it returns an object with the single property \<open>error\<close>. The four
  aggregates of the specification (entry count, sums of the success and failure counters,
  sum of the content lengths) are what the statistics query of scripts/cache.js selects
  on a table that is not empty.
\<close>

theorem getCacheStats_counts:
  "(\<forall>db t. dbBinding = Some db \<and> subscription_cache db = Some t \<and> distinct (map fst t) \<longrightarrow>
       getCacheStats dbBinding =
         [(''totalCached'', JNumber (int (card {k. stored_row k dbBinding \<noteq> None}))),
          (''withSuccess'',
             JNumber (int (card {k. \<exists>r. stored_row k dbBinding = Some r \<and> 0 < success_count r})))])
   \<and> ((\<forall>db. dbBinding = Some db \<longrightarrow> subscription_cache db = None) \<longrightarrow>
         map fst (getCacheStats dbBinding) = [''error''])
   \<and> (t' \<noteq> [] \<longrightarrow> map snd (showStats_query t') = map snd (spec_stats t'))"
proof (intro conjI allI impI)
  fix db t
  assume a: "dbBinding = Some db \<and> subscription_cache db = Some t \<and> distinct (map fst t)"
  then have s: "\<And>k. stored_row k dbBinding = map_of t k" by (simp add: stored_row_def)
  from a have d: "distinct (map fst t)" by simp
  have g: "getCacheStats dbBinding =
     [(''totalCached'', JNumber (int (length t))),
      (''withSuccess'', JNumber (int (length (filter (\<lambda>(k, r). success_count r > 0) t))))]"
    using a by (simp add: getCacheStats_def)
  show "getCacheStats dbBinding =
         [(''totalCached'', JNumber (int (card {k. stored_row k dbBinding \<noteq> None}))),
          (''withSuccess'',
             JNumber (int (card {k. \<exists>r. stored_row k dbBinding = Some r \<and> 0 < success_count r})))]"
    unfolding g s card_keys_table [OF d] card_keys_filter_table [OF d] ..
next
  assume "\<forall>db. dbBinding = Some db \<longrightarrow> subscription_cache db = None"
  then show "map fst (getCacheStats dbBinding) = [''error'']"
    by (cases dbBinding) (simp_all add: getCacheStats_def)
next
  assume "t' \<noteq> []"
  then show "map snd (showStats_query t') = map snd (spec_stats t')"
    by (simp add: showStats_query_def spec_stats_def sql_sum_def)
qed

theorem getCacheStats_counts_witness:
  "getCacheStats (Some \<lparr>subscription_cache = Some [(''k'',
       \<lparr>row_url = ascii ''u'', row_content = ''hello'', created_at = 1000, updated_at = 1000,
        success_count = 2, fail_count = 1\<rparr>)]\<rparr>)
     = [(''totalCached'', JNumber 1), (''withSuccess'', JNumber 1)]
   \<and> map fst (getCacheStats None) = [''error'']
   \<and> map snd (showStats_query [(''k'',
       \<lparr>row_url = ascii ''u'', row_content = ''hello'', created_at = 1000, updated_at = 1000,
        success_count = 2, fail_count = 1\<rparr>)]) = [JNumber 1, JNumber 2, JNumber 1, JNumber 5]"
proof -
  let ?r = "\<lparr>row_url = ascii ''u'', row_content = ''hello'', created_at = 1000, updated_at = 1000,
        success_count = 2, fail_count = 1\<rparr>"
  let ?t = "[(''k'', ?r)]"
  let ?db = "\<lparr>subscription_cache = Some ?t\<rparr>"
  have s: "\<And>k. stored_row k (Some ?db) = (if k = ''k'' then Some ?r else None)"
    by (simp add: stored_row_def)
  have c1: "{k. stored_row k (Some ?db) \<noteq> None} = {''k''}"
    unfolding s by auto
  have c2: "{k. \<exists>r. stored_row k (Some ?db) = Some r \<and> 0 < success_count r} = {''k''}"
    unfolding s by auto
  have h1: "Some ?db = Some ?db \<and> subscription_cache ?db = Some ?t \<and> distinct (map fst ?t)"
    by simp
  have 1: "getCacheStats (Some ?db) = [(''totalCached'', JNumber 1), (''withSuccess'', JNumber 1)]"
    using getCacheStats_counts [of "Some ?db", THEN conjunct1, rule_format, OF h1]
    unfolding c1 c2 by simp
  have h2: "\<forall>db. (None :: d1 option) = Some db \<longrightarrow> subscription_cache db = None" by simp
  have 2: "map fst (getCacheStats None) = [''error'']"
    using getCacheStats_counts [of None, THEN conjunct2, THEN conjunct1, THEN mp, OF h2] .
  have h3: "?t \<noteq> []" by simp
  have 3: "map snd (showStats_query ?t) = [JNumber 1, JNumber 2, JNumber 1, JNumber 5]"
    using getCacheStats_counts [of _ ?t, THEN conjunct2, THEN conjunct2, THEN mp, OF h3]
    by (simp add: spec_stats_def)
  show ?thesis using 1 2 3 by simp
qed

text \<open>
  Claim C9. When a key already has a row, \<open>saveToCache\<close> on that key leaves a row whose
  \<open>created_at\<close> and \<open>updated_at\<close> are both the current time: the creation time of the
  old row is not kept, while the content is replaced, the success counter is incremented
  and the failure counter is kept.
\<close>

theorem saveToCache_resets_created_at:
  assumes "stored_row k dbBinding = Some r"
  shows "\<exists>r'. stored_row k (snd (saveToCache now k u c dbBinding)) = Some r'
           \<and> created_at r' = now \<and> updated_at r' = now
           \<and> row_content r' = c
           \<and> success_count r' = success_count r + 1
           \<and> fail_count r' = fail_count r"
proof -
  from stored_row_configured [OF assms] obtain db t where
    c: "dbBinding = Some db" "subscription_cache db = Some t" by blast
  show ?thesis
    using stored_row_saveToCache_same [OF c, of k now u c] assms by simp
qed

theorem saveToCache_resets_created_at_witness:
  "stored_row ''k'' (Some \<lparr>subscription_cache = Some [(''k'',
       \<lparr>row_url = ascii ''u'', row_content = ''old'', created_at = 1000, updated_at = 1500,
        success_count = 4, fail_count = 2\<rparr>)]\<rparr>)
     = Some \<lparr>row_url = ascii ''u'', row_content = ''old'', created_at = 1000, updated_at = 1500,
        success_count = 4, fail_count = 2\<rparr>
   \<and> map_option created_at (stored_row ''k'' (snd (saveToCache 9000 ''k'' (ascii ''u'') ''new''
        (Some \<lparr>subscription_cache = Some [(''k'',
          \<lparr>row_url = ascii ''u'', row_content = ''old'', created_at = 1000, updated_at = 1500,
           success_count = 4, fail_count = 2\<rparr>)]\<rparr>)))) = Some 9000
   \<and> map_option success_count (stored_row ''k'' (snd (saveToCache 9000 ''k'' (ascii ''u'') ''new''
        (Some \<lparr>subscription_cache = Some [(''k'',
          \<lparr>row_url = ascii ''u'', row_content = ''old'', created_at = 1000, updated_at = 1500,
           success_count = 4, fail_count = 2\<rparr>)]\<rparr>)))) = Some 5"
proof -
  let ?r = "\<lparr>row_url = ascii ''u'', row_content = ''old'', created_at = 1000, updated_at = 1500,
        success_count = 4, fail_count = 2\<rparr>"
  let ?d = "Some \<lparr>subscription_cache = Some [(''k'', ?r)]\<rparr>"
  have h: "stored_row ''k'' ?d = Some ?r" by (simp add: stored_row_def)
  from saveToCache_resets_created_at [OF h, of 9000 "ascii ''u''" "''new''"]
  obtain r' where "stored_row ''k'' (snd (saveToCache 9000 ''k'' (ascii ''u'') ''new'' ?d)) = Some r'"
    "created_at r' = 9000" "success_count r' = success_count ?r + 1" by blast
  then show ?thesis using h by simp
qed

text \<open>
  Claim C10. With \<open>maxRetries = 0\<close> the budget is specified to be the default 3, so that three
  requests are made against a failing origin. For the URL \<open>https://a.test/sub\<close> no
  request is made at all: the call raises in the key derivation, before the budget is
  used.
\<close>

theorem fetchWithCache_zero_budget_no_attempt:
  "fetchWithCache fetch now (ascii ''https://a.test/sub'')
     \<lparr>opt_headers = None, opt_maxRetries = Some 0\<rparr> dbBinding =
   (Inl (TypeError ''data.charCodeAt is not a function''), [], dbBinding)"
  by (rule fetchWithCache_raises) (simp add: ascii_def)

end
